theory Spec2Isabelle
  imports Complex_Main "HOL-Library.Word" "HOL-Library.Stream" "HOL-Library.Signed_Division"
begin

unbundle bit_operations_syntax

section \<open>OurLoRa: the SX1276/78 driver of \<^verbatim>\<open>src/firmware/ourlora.h\<close>\<close>

text \<open>
  The driver talks to the radio chip through the Arduino primitives \<^verbatim>\<open>pinMode\<close>,
  \<^verbatim>\<open>digitalWrite\<close>, \<^verbatim>\<open>SPI.transfer\<close>, \<^verbatim>\<open>delay\<close>, \<^verbatim>\<open>millis\<close> and \<^verbatim>\<open>Serial.print\<close>.
  They are modelled as operations on an explicit world: every call appends an event to a
  trace, every SPI transfer consumes the next byte the chip puts on MISO (an arbitrary
  stream, so every behaviour of the chip is covered), and \<^verbatim>\<open>delay n\<close> advances the
  millisecond clock by \<open>n\<close>. Bus transfers and register accesses themselves take no time
  in this model. The three file-level variables of the driver are fields of the world.
\<close>

subsection \<open>Machine types\<close>

type_synonym u8 = "8 word"
type_synonym u32 = "32 word"
type_synonym u64 = "64 word"

subsection \<open>Pins, registers, modes and masks\<close>

abbreviation (input) LORA_CS_PIN :: nat where "LORA_CS_PIN \<equiv> 5"
abbreviation (input) LORA_RST_PIN :: nat where "LORA_RST_PIN \<equiv> 2"
abbreviation (input) LORA_DIO0_PIN :: nat where "LORA_DIO0_PIN \<equiv> 4"

abbreviation (input) REG_FIFO :: u8 where "REG_FIFO \<equiv> 0x00"
abbreviation (input) REG_OP_MODE :: u8 where "REG_OP_MODE \<equiv> 0x01"
abbreviation (input) REG_FRF_MSB :: u8 where "REG_FRF_MSB \<equiv> 0x06"
abbreviation (input) REG_FRF_MID :: u8 where "REG_FRF_MID \<equiv> 0x07"
abbreviation (input) REG_FRF_LSB :: u8 where "REG_FRF_LSB \<equiv> 0x08"
abbreviation (input) REG_PA_CONFIG :: u8 where "REG_PA_CONFIG \<equiv> 0x09"
abbreviation (input) REG_LNA :: u8 where "REG_LNA \<equiv> 0x0C"
abbreviation (input) REG_FIFO_ADDR_PTR :: u8 where "REG_FIFO_ADDR_PTR \<equiv> 0x0D"
abbreviation (input) REG_FIFO_TX_BASE_ADDR :: u8 where "REG_FIFO_TX_BASE_ADDR \<equiv> 0x0E"
abbreviation (input) REG_FIFO_RX_BASE_ADDR :: u8 where "REG_FIFO_RX_BASE_ADDR \<equiv> 0x0F"
abbreviation (input) REG_FIFO_RX_CURRENT_ADDR :: u8 where "REG_FIFO_RX_CURRENT_ADDR \<equiv> 0x10"
abbreviation (input) REG_IRQ_FLAGS :: u8 where "REG_IRQ_FLAGS \<equiv> 0x12"
abbreviation (input) REG_RX_NB_BYTES :: u8 where "REG_RX_NB_BYTES \<equiv> 0x13"
abbreviation (input) REG_PKT_RSSI_VALUE :: u8 where "REG_PKT_RSSI_VALUE \<equiv> 0x1A"
abbreviation (input) REG_PKT_SNR_VALUE :: u8 where "REG_PKT_SNR_VALUE \<equiv> 0x19"
abbreviation (input) REG_MODEM_CONFIG_1 :: u8 where "REG_MODEM_CONFIG_1 \<equiv> 0x1D"
abbreviation (input) REG_MODEM_CONFIG_2 :: u8 where "REG_MODEM_CONFIG_2 \<equiv> 0x1E"
abbreviation (input) REG_PREAMBLE_MSB :: u8 where "REG_PREAMBLE_MSB \<equiv> 0x20"
abbreviation (input) REG_PREAMBLE_LSB :: u8 where "REG_PREAMBLE_LSB \<equiv> 0x21"
abbreviation (input) REG_PAYLOAD_LENGTH :: u8 where "REG_PAYLOAD_LENGTH \<equiv> 0x22"
abbreviation (input) REG_MODEM_CONFIG_3 :: u8 where "REG_MODEM_CONFIG_3 \<equiv> 0x26"
abbreviation (input) REG_SYNC_WORD :: u8 where "REG_SYNC_WORD \<equiv> 0x39"
abbreviation (input) REG_VERSION :: u8 where "REG_VERSION \<equiv> 0x42"
abbreviation (input) REG_PA_DAC :: u8 where "REG_PA_DAC \<equiv> 0x4D"

abbreviation (input) MODE_LONG_RANGE_MODE :: u8 where "MODE_LONG_RANGE_MODE \<equiv> 0x80"
abbreviation (input) MODE_SLEEP :: u8 where "MODE_SLEEP \<equiv> 0x00"
abbreviation (input) MODE_STDBY :: u8 where "MODE_STDBY \<equiv> 0x01"
abbreviation (input) MODE_TX :: u8 where "MODE_TX \<equiv> 0x03"
abbreviation (input) MODE_RX_CONTINUOUS :: u8 where "MODE_RX_CONTINUOUS \<equiv> 0x05"

abbreviation (input) IRQ_TX_DONE_MASK :: u8 where "IRQ_TX_DONE_MASK \<equiv> 0x08"
abbreviation (input) IRQ_RX_DONE_MASK :: u8 where "IRQ_RX_DONE_MASK \<equiv> 0x40"
abbreviation (input) IRQ_PAYLOAD_CRC_ERROR :: u8 where "IRQ_PAYLOAD_CRC_ERROR \<equiv> 0x20"

abbreviation (input) PA_BOOST :: u8 where "PA_BOOST \<equiv> 0x80"

subsection \<open>The world: bus, clock, serial console and the driver's variables\<close>

datatype pin_mode = INPUT | OUTPUT

datatype level = LOW | HIGH

datatype serial_item = Text string | Hex u8 | Dec int

datatype event =
    PinMode nat pin_mode
  | DigitalWrite nat level
  | SpiTransfer u8 u8
  | Delay nat
  | SerialPrint serial_item
  | SerialPrintln serial_item

text \<open>
  \<open>SpiTransfer out inp\<close> is one call of \<^verbatim>\<open>SPI.transfer(out)\<close> that returned \<open>inp\<close>.
  \<open>currentFreq\<close> is the C \<^verbatim>\<open>long\<close> of the 32-bit targets the library is written for,
  kept as its two's-complement bit pattern; \<open>lastRssi\<close> and \<open>lastSnr\<close> are C \<^verbatim>\<open>int\<close>s whose
  values stay within \<open>-164 .. 255\<close>, kept as mathematical integers.
\<close>

record world =
  miso :: "u8 stream"
  clock :: u32
  trace :: "event list"
  lastRssi :: int
  lastSnr :: int
  currentFreq :: u32

definition emit :: "event \<Rightarrow> world \<Rightarrow> world" where
  "emit e w = w\<lparr>trace := trace w @ [e]\<rparr>"

definition pinMode :: "nat \<Rightarrow> pin_mode \<Rightarrow> world \<Rightarrow> world" where
  "pinMode pin m w = emit (PinMode pin m) w"

definition digitalWrite :: "nat \<Rightarrow> level \<Rightarrow> world \<Rightarrow> world" where
  "digitalWrite pin l w = emit (DigitalWrite pin l) w"

definition SPI_transfer :: "u8 \<Rightarrow> world \<Rightarrow> u8 \<times> world" where
  "SPI_transfer out w =
     (shd (miso w), emit (SpiTransfer out (shd (miso w))) (w\<lparr>miso := stl (miso w)\<rparr>))"

definition delay :: "nat \<Rightarrow> world \<Rightarrow> world" where
  "delay ms w = emit (Delay ms) (w\<lparr>clock := clock w + of_nat ms\<rparr>)"

definition millis :: "world \<Rightarrow> u32" where
  "millis w = clock w"

definition Serial_print :: "serial_item \<Rightarrow> world \<Rightarrow> world" where
  "Serial_print x w = emit (SerialPrint x) w"

definition Serial_println :: "serial_item \<Rightarrow> world \<Rightarrow> world" where
  "Serial_println x w = emit (SerialPrintln x) w"

text \<open>The state the C program starts in: the three variables are initialised to 0.\<close>

definition boot :: "u8 stream \<Rightarrow> u32 \<Rightarrow> world" where
  "boot chip t0 =
     \<lparr>miso = chip, clock = t0, trace = [], lastRssi = 0, lastSnr = 0, currentFreq = 0\<rparr>"

subsection \<open>Low-level register access\<close>

definition write_lora_register :: "u8 \<Rightarrow> u8 \<Rightarrow> world \<Rightarrow> world" where
  "write_lora_register address v w =
     (let w = digitalWrite LORA_CS_PIN LOW w;
          w = snd (SPI_transfer (address OR 0x80) w);
          w = snd (SPI_transfer v w);
          w = digitalWrite LORA_CS_PIN HIGH w
      in w)"

definition read_lora_register :: "u8 \<Rightarrow> world \<Rightarrow> u8 \<times> world" where
  "read_lora_register address w =
     (let w = digitalWrite LORA_CS_PIN LOW w;
          w = snd (SPI_transfer (address AND 0x7F) w);
          (v, w) = SPI_transfer 0x00 w;
          w = digitalWrite LORA_CS_PIN HIGH w
      in (v, w))"

subsection \<open>Initialisation\<close>

text \<open>
  \<^verbatim>\<open>uint32_t frf = ((uint64_t)frequency_mhz * 1000000 << 19) / 32000000;\<close>
  The cast sign-extends the \<^verbatim>\<open>long\<close>, the product and the shift wrap at 64 bits, the
  division is unsigned, and the assignment keeps the low 32 bits.
\<close>

definition frf_wide :: "u32 \<Rightarrow> u64" where
  "frf_wide frequency_mhz = push_bit 19 ((scast frequency_mhz :: u64) * 1000000)"

definition frf_word :: "u32 \<Rightarrow> u32" where
  "frf_word frequency_mhz = ucast (frf_wide frequency_mhz div 32000000)"

definition setup_ourlora :: "u32 \<Rightarrow> world \<Rightarrow> bool \<times> world" where
  "setup_ourlora frequency_mhz w =
     (let w = Serial_println (Text (CHR 0x0A # ''=== Initializing OurLoRa ==='')) w;
          w = pinMode LORA_CS_PIN OUTPUT w;
          w = pinMode LORA_RST_PIN OUTPUT w;
          w = pinMode LORA_DIO0_PIN INPUT w;
          w = digitalWrite LORA_CS_PIN HIGH w;
          w = digitalWrite LORA_RST_PIN LOW w;
          w = delay 10 w;
          w = digitalWrite LORA_RST_PIN HIGH w;
          w = delay 10 w;
          (version, w) = read_lora_register REG_VERSION w;
          w = Serial_print (Text ''LoRa Chip Version: 0x'') w;
          w = Serial_println (Hex version) w
      in if version \<noteq> 0x12 then
           (False, Serial_println (Text ''ERROR: LoRa module not detected!'') w)
         else
           (let w = write_lora_register REG_OP_MODE (MODE_LONG_RANGE_MODE OR MODE_SLEEP) w;
                w = delay 10 w;
                frf = frf_word frequency_mhz;
                w = write_lora_register REG_FRF_MSB (ucast (drop_bit 16 frf)) w;
                w = write_lora_register REG_FRF_MID (ucast (drop_bit 8 frf)) w;
                w = write_lora_register REG_FRF_LSB (ucast (drop_bit 0 frf)) w;
                w = w\<lparr>currentFreq := frequency_mhz\<rparr>;
                w = write_lora_register REG_FIFO_TX_BASE_ADDR 0x00 w;
                w = write_lora_register REG_FIFO_RX_BASE_ADDR 0x00 w;
                (lna, w) = read_lora_register REG_LNA w;
                w = write_lora_register REG_LNA (lna OR 0x03) w;
                w = write_lora_register REG_MODEM_CONFIG_1 0x72 w;
                w = write_lora_register REG_MODEM_CONFIG_2 0x74 w;
                w = write_lora_register REG_MODEM_CONFIG_3 0x04 w;
                w = write_lora_register REG_PREAMBLE_MSB 0x00 w;
                w = write_lora_register REG_PREAMBLE_LSB 0x08 w;
                w = write_lora_register REG_SYNC_WORD 0x12 w;
                w = write_lora_register REG_PA_CONFIG (PA_BOOST OR 0x0F) w;
                w = write_lora_register REG_PA_DAC 0x87 w;
                w = write_lora_register REG_OP_MODE (MODE_LONG_RANGE_MODE OR MODE_STDBY) w;
                w = delay 10 w;
                w = Serial_print (Text ''OurLoRa initialized at '') w;
                w = Serial_print (Dec (sint frequency_mhz)) w;
                w = Serial_println (Text '' MHz!'') w
            in (True, w)))"

subsection \<open>Transmit\<close>

text \<open>
  The caller's buffers are C pointers; they are modelled as the memory behind the
  pointer, a function from the index to the byte stored there, so that an access at any
  index is visible.
\<close>

type_synonym buffer = "nat \<Rightarrow> u8"

text \<open>\<^verbatim>\<open>for (int i = 0; i < length; i++) SPI.transfer(message[i]);\<close>\<close>

function fifo_write_loop :: "nat \<Rightarrow> nat \<Rightarrow> buffer \<Rightarrow> world \<Rightarrow> world" where
  "fifo_write_loop i n message w =
     (if i < n then fifo_write_loop (Suc i) n message (snd (SPI_transfer (message i) w))
      else w)"
  by pat_completeness auto
termination
  by (relation "measure (\<lambda>(i, n, message, w). n - i)") auto

text \<open>
  The wait for TX done, entered with \<open>startTime\<close> already taken:
  \<^verbatim>\<open>while (!(read_lora_register(REG_IRQ_FLAGS) & IRQ_TX_DONE_MASK)) {
       if (millis() - startTime > 2000) { Serial.println("TX timeout!"); return false; }
       delay(1); }\<close>
  The result is \<open>True\<close> when the loop is left through its condition and \<open>False\<close> when it
  is left through the \<^verbatim>\<open>return false\<close>. The subtraction is the unsigned 32-bit one.
\<close>

function wait_tx_done :: "u32 \<Rightarrow> world \<Rightarrow> bool \<times> world" where
  "wait_tx_done startTime w =
     (let (irqFlags, w) = read_lora_register REG_IRQ_FLAGS w
      in if irqFlags AND IRQ_TX_DONE_MASK \<noteq> 0 then (True, w)
         else if millis w - startTime > 2000 then
           (False, Serial_println (Text ''TX timeout!'') w)
         else wait_tx_done startTime (delay 1 w))"
  by pat_completeness auto
termination
proof (relation "measure (\<lambda>(startTime, w). 2001 - unat (clock w - startTime))")
  show "wf (measure (\<lambda>(startTime, w). 2001 - unat (clock w - startTime)))"
    by simp
next
  fix startTime :: u32 and w :: world and x :: "u8 \<times> world" and irqFlags :: u8 and w1 :: world
  assume rd: "x = read_lora_register REG_IRQ_FLAGS w" and x: "(irqFlags, w1) = x"
    and late: "\<not> 2000 < millis w1 - startTime"
  from rd x have c: "clock w1 = clock w"
    by (simp add: read_lora_register_def SPI_transfer_def digitalWrite_def emit_def Let_def
        split_def)
  from late c have le: "unat (clock w - startTime) \<le> 2000"
    by (simp add: millis_def word_less_nat_alt not_less)
  have e1: "clock (delay 1 w1) = clock w + 1"
    by (simp add: delay_def emit_def c)
  have e2: "clock w + 1 - startTime = (clock w - startTime) + 1"
    by simp
  from le have e3: "unat ((clock w - startTime) + 1) = unat (clock w - startTime) + 1"
    by (simp add: unat_word_ariths)
  have "unat (clock (delay 1 w1) - startTime) = unat (clock w - startTime) + 1"
    by (simp only: e1 e2 e3)
  with le show "((startTime, delay 1 w1), (startTime, w))
      \<in> measure (\<lambda>(startTime, w). 2001 - unat (clock w - startTime))"
    by simp
qed

definition send_a_msg :: "buffer \<Rightarrow> u8 \<Rightarrow> world \<Rightarrow> bool \<times> world" where
  "send_a_msg message len w =
     (let w = write_lora_register REG_OP_MODE (MODE_LONG_RANGE_MODE OR MODE_STDBY) w;
          w = write_lora_register REG_IRQ_FLAGS 0xFF w;
          w = write_lora_register REG_FIFO_ADDR_PTR 0x00 w;
          w = digitalWrite LORA_CS_PIN LOW w;
          w = snd (SPI_transfer (REG_FIFO OR 0x80) w);
          w = fifo_write_loop 0 (unat len) message w;
          w = digitalWrite LORA_CS_PIN HIGH w;
          w = write_lora_register REG_PAYLOAD_LENGTH len w;
          w = write_lora_register REG_OP_MODE (MODE_LONG_RANGE_MODE OR MODE_TX) w;
          startTime = millis w;
          (done, w) = wait_tx_done startTime w
      in if \<not> done then (False, w)
         else
           (let w = write_lora_register REG_IRQ_FLAGS IRQ_TX_DONE_MASK w;
                w = write_lora_register REG_OP_MODE (MODE_LONG_RANGE_MODE OR MODE_STDBY) w
            in (True, w)))"

subsection \<open>Receive poll\<close>

text \<open>\<^verbatim>\<open>for (int i = 0; i < packetLength; i++) buffer[i] = SPI.transfer(0x00);\<close>\<close>

function fifo_read_loop :: "nat \<Rightarrow> nat \<Rightarrow> buffer \<Rightarrow> world \<Rightarrow> buffer \<times> world" where
  "fifo_read_loop i n buffer w =
     (if i < n then
        (let (v, w) = SPI_transfer 0x00 w
         in fifo_read_loop (Suc i) n (buffer(i := v)) w)
      else (buffer, w))"
  by pat_completeness auto
termination
  by (relation "measure (\<lambda>(i, n, buffer, w). n - i)") auto

text \<open>
  The result is the returned \<^verbatim>\<open>int\<close>, the caller's buffer after the call and the world.
  \<^verbatim>\<open>(int8_t)read_lora_register(REG_PKT_SNR_VALUE) / 4\<close> is C's integer division, which
  truncates towards zero (\<open>sdiv\<close>); the comparison of \<^verbatim>\<open>_currentFreq\<close> is the signed one.
\<close>

definition check_for_msg :: "buffer \<Rightarrow> u8 \<Rightarrow> world \<Rightarrow> int \<times> buffer \<times> world" where
  "check_for_msg buffer maxLength w =
     (let (irqFlags, w) = read_lora_register REG_IRQ_FLAGS w
      in if irqFlags AND IRQ_RX_DONE_MASK = 0 then (0, buffer, w)
         else
           (let w = write_lora_register REG_IRQ_FLAGS IRQ_RX_DONE_MASK w
            in if irqFlags AND IRQ_PAYLOAD_CRC_ERROR \<noteq> 0 then
                 (let w = Serial_println (Text ''CRC error - packet corrupted!'') w;
                      w = write_lora_register REG_IRQ_FLAGS IRQ_PAYLOAD_CRC_ERROR w
                  in (- 1, buffer, w))
               else
                 (let (packetLength, w) = read_lora_register REG_RX_NB_BYTES w;
                      packetLength = (if packetLength > maxLength then maxLength
                                      else packetLength);
                      (currentAddr, w) = read_lora_register REG_FIFO_RX_CURRENT_ADDR w;
                      w = write_lora_register REG_FIFO_ADDR_PTR currentAddr w;
                      w = digitalWrite LORA_CS_PIN LOW w;
                      w = snd (SPI_transfer (REG_FIFO AND 0x7F) w);
                      (buffer, w) = fifo_read_loop 0 (unat packetLength) buffer w;
                      w = digitalWrite LORA_CS_PIN HIGH w;
                      rssi_offset = (if sint (currentFreq w) < 525 then 164 else 157);
                      (rssi_raw, w) = read_lora_register REG_PKT_RSSI_VALUE w;
                      w = w\<lparr>lastRssi := uint rssi_raw - rssi_offset\<rparr>;
                      (snr_raw, w) = read_lora_register REG_PKT_SNR_VALUE w;
                      w = w\<lparr>lastSnr := sint snr_raw sdiv 4\<rparr>
                  in (uint packetLength, buffer, w))))"

subsection \<open>Auxiliary operations\<close>

definition start_listening :: "world \<Rightarrow> world" where
  "start_listening w =
     (let w = write_lora_register REG_OP_MODE (MODE_LONG_RANGE_MODE OR MODE_STDBY) w;
          w = write_lora_register REG_IRQ_FLAGS 0xFF w;
          w = write_lora_register REG_FIFO_ADDR_PTR 0x00 w;
          w = write_lora_register REG_OP_MODE (MODE_LONG_RANGE_MODE OR MODE_RX_CONTINUOUS) w
      in w)"

definition get_signal_strength :: "world \<Rightarrow> int \<times> world" where
  "get_signal_strength w = (lastRssi w, w)"

definition get_signal_quality :: "world \<Rightarrow> int \<times> world" where
  "get_signal_quality w = (lastSnr w, w)"

definition go_to_sleep :: "world \<Rightarrow> world" where
  "go_to_sleep w = write_lora_register REG_OP_MODE (MODE_LONG_RANGE_MODE OR MODE_SLEEP) w"

definition wake_up_lora :: "world \<Rightarrow> world" where
  "wake_up_lora w =
     (let w = write_lora_register REG_OP_MODE (MODE_LONG_RANGE_MODE OR MODE_STDBY) w;
          w = delay 10 w
      in w)"

text \<open>
  \<^verbatim>\<open>PA_BOOST | (power_dbm - 2)\<close> is computed on \<^verbatim>\<open>int\<close> and converted to the
  \<^verbatim>\<open>uint8_t\<close> parameter.
\<close>

definition set_tx_power :: "int \<Rightarrow> world \<Rightarrow> world" where
  "set_tx_power power_dbm w =
     (let power_dbm = (if power_dbm < 2 then 2 else power_dbm);
          power_dbm = (if power_dbm > 17 then 17 else power_dbm)
      in write_lora_register REG_PA_CONFIG (word_of_int (uint PA_BOOST OR (power_dbm - 2))) w)"

definition set_network_id :: "u8 \<Rightarrow> world \<Rightarrow> world" where
  "set_network_id sync_word w = write_lora_register REG_SYNC_WORD sync_word w"

subsection \<open>The application interface as a whole\<close>

datatype call =
    Setup u32
  | Send buffer u8
  | Check buffer u8
  | StartListening
  | GetSignalStrength
  | GetSignalQuality
  | GoToSleep
  | WakeUp
  | SetTxPower int
  | SetNetworkId u8

fun step :: "call \<Rightarrow> world \<Rightarrow> world" where
  "step (Setup f) w = snd (setup_ourlora f w)"
| "step (Send message len) w = snd (send_a_msg message len w)"
| "step (Check buffer maxLength) w = snd (snd (check_for_msg buffer maxLength w))"
| "step StartListening w = start_listening w"
| "step GetSignalStrength w = snd (get_signal_strength w)"
| "step GetSignalQuality w = snd (get_signal_quality w)"
| "step GoToSleep w = go_to_sleep w"
| "step WakeUp w = wake_up_lora w"
| "step (SetTxPower p) w = set_tx_power p w"
| "step (SetNetworkId s) w = set_network_id s w"

fun run :: "call list \<Rightarrow> world \<Rightarrow> world" where
  "run [] w = w"
| "run (c # cs) w = run cs (step c w)"

text \<open>
  A call takes the successful-packet path of \<open>check_for_msg\<close> when it is a receive poll
  and the interrupt flags it reads have RX done set and the CRC error clear.
\<close>

fun rx_success :: "call \<Rightarrow> world \<Rightarrow> bool" where
  "rx_success (Check buffer maxLength) w =
     (let irqFlags = fst (read_lora_register REG_IRQ_FLAGS w)
      in irqFlags AND IRQ_RX_DONE_MASK \<noteq> 0 \<and> irqFlags AND IRQ_PAYLOAD_CRC_ERROR = 0)"
| "rx_success _ w = False"

fun no_rx_success :: "call list \<Rightarrow> world \<Rightarrow> bool" where
  "no_rx_success [] w = True"
| "no_rx_success (c # cs) w = (\<not> rx_success c w \<and> no_rx_success cs (step c w))"

subsection \<open>Reading the trace: register accesses on the bus\<close>

text \<open>
  A bus frame runs from a falling to a rising edge of chip select. Its first byte is the
  address byte (bit 7 set for a write); every further byte of the frame is one access to
  that register: the byte sent for a write, the byte received for a read. The driver
  bursts only on the FIFO register, whose address does not advance. Each access carries
  the time at which it happens, in milliseconds of \<open>delay\<close> since the start of the
  event list.
\<close>

datatype access = RegWrite u8 u8 | RegRead u8 u8

datatype bus_state = Idle | Selected | Addressed u8

fun accesses_at :: "nat \<Rightarrow> bus_state \<Rightarrow> event list \<Rightarrow> (nat \<times> access) list" where
  "accesses_at t s [] = []"
| "accesses_at t s (DigitalWrite pin l # es) =
     (if pin = LORA_CS_PIN then accesses_at t (if l = LOW then Selected else Idle) es
      else accesses_at t s es)"
| "accesses_at t Idle (SpiTransfer out inp # es) = accesses_at t Idle es"
| "accesses_at t Selected (SpiTransfer out inp # es) = accesses_at t (Addressed out) es"
| "accesses_at t (Addressed a) (SpiTransfer out inp # es) =
     (t, if a AND 0x80 \<noteq> 0 then RegWrite (a AND 0x7F) out else RegRead a inp)
       # accesses_at t (Addressed a) es"
| "accesses_at t s (Delay ms # es) = accesses_at (t + ms) s es"
| "accesses_at t s (PinMode pin m # es) = accesses_at t s es"
| "accesses_at t s (SerialPrint x # es) = accesses_at t s es"
| "accesses_at t s (SerialPrintln x # es) = accesses_at t s es"

fun bus_after :: "bus_state \<Rightarrow> event list \<Rightarrow> bus_state" where
  "bus_after s [] = s"
| "bus_after s (DigitalWrite pin l # es) =
     (if pin = LORA_CS_PIN then bus_after (if l = LOW then Selected else Idle) es
      else bus_after s es)"
| "bus_after Idle (SpiTransfer out inp # es) = bus_after Idle es"
| "bus_after Selected (SpiTransfer out inp # es) = bus_after (Addressed out) es"
| "bus_after (Addressed a) (SpiTransfer out inp # es) = bus_after (Addressed a) es"
| "bus_after s (Delay ms # es) = bus_after s es"
| "bus_after s (PinMode pin m # es) = bus_after s es"
| "bus_after s (SerialPrint x # es) = bus_after s es"
| "bus_after s (SerialPrintln x # es) = bus_after s es"

fun duration :: "event list \<Rightarrow> nat" where
  "duration [] = 0"
| "duration (Delay ms # es) = ms + duration es"
| "duration (e # es) = duration es"

text \<open>The events an operation added to the trace, and the accesses among them.\<close>

definition new_events :: "world \<Rightarrow> world \<Rightarrow> event list" where
  "new_events w w' = drop (length (trace w)) (trace w')"

definition timed_accesses :: "world \<Rightarrow> world \<Rightarrow> (nat \<times> access) list" where
  "timed_accesses w w' = accesses_at 0 Idle (new_events w w')"

definition bus_accesses :: "world \<Rightarrow> world \<Rightarrow> access list" where
  "bus_accesses w w' = map snd (timed_accesses w w')"

fun writes_to :: "u8 \<Rightarrow> access list \<Rightarrow> u8 list" where
  "writes_to r [] = []"
| "writes_to r (RegWrite a v # xs) = (if a = r then v # writes_to r xs else writes_to r xs)"
| "writes_to r (RegRead a v # xs) = writes_to r xs"

fun reads_from :: "u8 \<Rightarrow> access list \<Rightarrow> u8 list" where
  "reads_from r [] = []"
| "reads_from r (RegRead a v # xs) = (if a = r then v # reads_from r xs else reads_from r xs)"
| "reads_from r (RegWrite a v # xs) = reads_from r xs"

text \<open>The interrupt-flag readings of an operation, each with its time.\<close>

fun flag_polls :: "(nat \<times> access) list \<Rightarrow> (nat \<times> u8) list" where
  "flag_polls [] = []"
| "flag_polls ((t, RegRead a v) # xs) =
     (if a = REG_IRQ_FLAGS then (t, v) # flag_polls xs else flag_polls xs)"
| "flag_polls ((t, RegWrite a v) # xs) = flag_polls xs"

text \<open>The events of one register write, of one register read, and of \<open>k\<close> rounds of the
  transmit wait that did not see TX done.\<close>

definition write_frame :: "u8 \<Rightarrow> u8 \<Rightarrow> u8 \<Rightarrow> u8 \<Rightarrow> event list" where
  "write_frame a v x y =
     [DigitalWrite LORA_CS_PIN LOW, SpiTransfer (a OR 0x80) x, SpiTransfer v y,
      DigitalWrite LORA_CS_PIN HIGH]"

definition read_frame :: "u8 \<Rightarrow> u8 \<Rightarrow> u8 \<Rightarrow> event list" where
  "read_frame a x v =
     [DigitalWrite LORA_CS_PIN LOW, SpiTransfer (a AND 0x7F) x, SpiTransfer 0x00 v,
      DigitalWrite LORA_CS_PIN HIGH]"

fun tx_polls :: "nat \<Rightarrow> u8 stream \<Rightarrow> event list" where
  "tx_polls 0 m = []"
| "tx_polls (Suc k) m =
     read_frame REG_IRQ_FLAGS (shd m) (shd (stl m)) @ Delay 1 # tx_polls k (stl (stl m))"

text \<open>
  The events of a whole transmission of \<open>len\<close> bytes that polled the flags \<open>k + 1\<close> times,
  with \<open>m\<close> the bytes the chip returns from the start of the call; \<open>ok\<close> tells whether the
  last poll saw TX done. These closed forms are used to describe what the loops of
  \<open>send_a_msg\<close> do; the lemmas below prove that the driver emits exactly these events.
\<close>

definition send_prologue :: "buffer \<Rightarrow> u8 \<Rightarrow> u8 stream \<Rightarrow> event list" where
  "send_prologue message len m =
     write_frame REG_OP_MODE (MODE_LONG_RANGE_MODE OR MODE_STDBY) (m !! 0) (m !! 1)
     @ write_frame REG_IRQ_FLAGS 0xFF (m !! 2) (m !! 3)
     @ write_frame REG_FIFO_ADDR_PTR 0x00 (m !! 4) (m !! 5)
     @ DigitalWrite LORA_CS_PIN LOW # SpiTransfer (REG_FIFO OR 0x80) (m !! 6)
     # map (\<lambda>j. SpiTransfer (message j) (m !! (7 + j))) [0..<unat len]
     @ DigitalWrite LORA_CS_PIN HIGH
     # write_frame REG_PAYLOAD_LENGTH len (m !! (7 + unat len)) (m !! (8 + unat len))
     @ write_frame REG_OP_MODE (MODE_LONG_RANGE_MODE OR MODE_TX)
         (m !! (9 + unat len)) (m !! (10 + unat len))"

definition send_epilogue :: "bool \<Rightarrow> u8 stream \<Rightarrow> event list" where
  "send_epilogue ok m =
     (if ok then
        write_frame REG_IRQ_FLAGS IRQ_TX_DONE_MASK (m !! 0) (m !! 1)
        @ write_frame REG_OP_MODE (MODE_LONG_RANGE_MODE OR MODE_STDBY) (m !! 2) (m !! 3)
      else [SerialPrintln (Text ''TX timeout!'')])"

definition send_events :: "buffer \<Rightarrow> u8 \<Rightarrow> u8 stream \<Rightarrow> nat \<Rightarrow> bool \<Rightarrow> event list" where
  "send_events message len m k ok =
     send_prologue message len m
     @ tx_polls k (sdrop (11 + unat len) m)
     @ read_frame REG_IRQ_FLAGS (m !! (11 + unat len + 2 * k)) (m !! (12 + unat len + 2 * k))
     @ send_epilogue ok (sdrop (13 + unat len + 2 * k) m)"

section \<open>Closed forms of the operations\<close>

lemma new_events_append [simp]:
  "trace w' = trace w @ es \<Longrightarrow> new_events w w' = es"
  by (simp add: new_events_def)

lemma write_lora_register_eq:
  "write_lora_register a v w =
     w\<lparr>miso := sdrop 2 (miso w),
       trace := trace w @ write_frame a v (miso w !! 0) (miso w !! 1)\<rparr>"
  by (simp add: write_lora_register_def SPI_transfer_def digitalWrite_def emit_def
      write_frame_def numeral_2_eq_2)

lemma read_lora_register_eq:
  "read_lora_register a w =
     (miso w !! 1,
      w\<lparr>miso := sdrop 2 (miso w),
        trace := trace w @ read_frame a (miso w !! 0) (miso w !! 1)\<rparr>)"
  by (simp add: read_lora_register_def SPI_transfer_def digitalWrite_def emit_def
      read_frame_def numeral_2_eq_2 split_def)

lemma c80: "(0x80::u8) = 2 ^ 7" by simp

lemma write_bit: "(a OR 0x80 :: u8) AND 0x80 \<noteq> 0"
proof -
  have "bit ((a OR 0x80) AND 0x80 :: u8) 7" unfolding c80 by (simp add: bit_simps)
  then show ?thesis by (metis bit_0_eq bot_apply bot_bool_def)
qed

lemma bit80: "bit (0x80::int) n \<longleftrightarrow> n = 7"
  using bit_exp_iff[of 7 n, where 'a=int] by auto

lemma bit7F: "bit (0x7F::int) n \<longleftrightarrow> n < 7"
  using bit_mask_iff[of 7 n, where 'a=int] by (auto simp add: mask_eq_exp_minus_1)

lemma write_addr: "(a OR 0x80 :: u8) AND 0x7F = a AND 0x7F"
  by (rule bit_word_eqI) (auto simp add: bit_and_iff bit_or_iff bit80 bit7F)

lemma read_bit: "(a AND 0x7F :: u8) AND 0x80 = 0"
  by (rule bit_word_eqI) (auto simp add: bit_and_iff bit_or_iff bit80 bit7F)

lemma accesses_write_frame:
  "accesses_at t s (write_frame a v x y @ es) = (t, RegWrite (a AND 0x7F) v) # accesses_at t Idle es"
  by (simp add: write_frame_def write_bit write_addr)

lemma accesses_read_frame:
  "accesses_at t s (read_frame a x v @ es) = (t, RegRead (a AND 0x7F) v) # accesses_at t Idle es"
  by (simp add: read_frame_def read_bit)

lemmas accesses_frames = accesses_write_frame accesses_read_frame
  accesses_write_frame[where es="[]", simplified] accesses_read_frame[where es="[]", simplified]

lemmas reg_eqs = write_lora_register_eq read_lora_register_eq

lemmas prim_defs = digitalWrite_def pinMode_def delay_def Serial_print_def Serial_println_def
  emit_def millis_def SPI_transfer_def


declare fifo_write_loop.simps [simp del] fifo_read_loop.simps [simp del]
  wait_tx_done.simps [simp del]

lemma accesses_at_append:
  "accesses_at t s (xs @ ys) =
     accesses_at t s xs @ accesses_at (t + duration xs) (bus_after s xs) ys"
  by (induction t s xs rule: accesses_at.induct) (simp_all add: add.assoc)

lemma accesses_burst:
  "accesses_at t (Addressed a) (map (\<lambda>j. SpiTransfer (f j) (g j)) js @ es) =
     map (\<lambda>j. (t, if a AND 0x80 \<noteq> 0 then RegWrite (a AND 0x7F) (f j) else RegRead a (g j))) js
       @ accesses_at t (Addressed a) es"
  by (induction js) simp_all

lemma fifo_write_loop_eq:
  "fifo_write_loop i n message w =
     w\<lparr>miso := sdrop (n - i) (miso w),
       trace := trace w @ map (\<lambda>j. SpiTransfer (message (i + j)) (miso w !! j)) [0..<n - i]\<rparr>"
proof (induction i n message w rule: fifo_write_loop.induct)
  case (1 i n message w)
  show ?case
  proof (cases "i < n")
    case True
    define w1 where "w1 = w\<lparr>miso := stl (miso w),
      trace := trace w @ [SpiTransfer (message i) (shd (miso w))]\<rparr>"
    have st: "snd (SPI_transfer (message i) w) = w1"
      by (simp add: SPI_transfer_def emit_def w1_def)
    from True have n: "n - i = Suc (n - Suc i)" by simp
    have "fifo_write_loop i n message w = fifo_write_loop (Suc i) n message w1"
      by (subst fifo_write_loop.simps) (simp add: True st)
    also have "\<dots> = w1\<lparr>miso := sdrop (n - Suc i) (miso w1),
       trace := trace w1 @ map (\<lambda>j. SpiTransfer (message (Suc i + j)) (miso w1 !! j)) [0..<n - Suc i]\<rparr>"
      using 1[OF True] by (simp only: st)
    also have "\<dots> = w\<lparr>miso := sdrop (n - i) (miso w),
       trace := trace w @ map (\<lambda>j. SpiTransfer (message (i + j)) (miso w !! j)) [0..<n - i]\<rparr>"
      by (simp add: w1_def n map_upt_Suc del: upt_Suc)
    finally show ?thesis .
  next
    case False
    then show ?thesis by (subst fifo_write_loop.simps) simp
  qed
qed

lemma fifo_read_loop_eq:
  "fifo_read_loop i n buffer w =
     (\<lambda>j. if i \<le> j \<and> j < n then miso w !! (j - i) else buffer j,
      w\<lparr>miso := sdrop (n - i) (miso w),
        trace := trace w @ map (\<lambda>j. SpiTransfer 0x00 (miso w !! j)) [0..<n - i]\<rparr>)"
proof (induction i n buffer w rule: fifo_read_loop.induct)
  case (1 i n buffer w)
  show ?case
  proof (cases "i < n")
    case True
    define w1 where "w1 = w\<lparr>miso := stl (miso w),
      trace := trace w @ [SpiTransfer 0x00 (shd (miso w))]\<rparr>"
    have st: "SPI_transfer 0x00 w = (shd (miso w), w1)"
      by (simp add: SPI_transfer_def emit_def w1_def)
    from True have n: "n - i = Suc (n - Suc i)" by simp
    have "fifo_read_loop i n buffer w = fifo_read_loop (Suc i) n (buffer(i := shd (miso w))) w1"
      by (subst fifo_read_loop.simps) (simp add: True st)
    also have "\<dots> =
       (\<lambda>j. if Suc i \<le> j \<and> j < n then miso w1 !! (j - Suc i) else (buffer(i := shd (miso w))) j,
        w1\<lparr>miso := sdrop (n - Suc i) (miso w1),
          trace := trace w1 @ map (\<lambda>j. SpiTransfer 0x00 (miso w1 !! j)) [0..<n - Suc i]\<rparr>)"
      by (rule 1[OF True st[symmetric] refl])
    also have "(\<lambda>j. if Suc i \<le> j \<and> j < n then miso w1 !! (j - Suc i) else (buffer(i := shd (miso w))) j)
       = (\<lambda>j. if i \<le> j \<and> j < n then miso w !! (j - i) else buffer j)"
    proof
      fix j
      show "(if Suc i \<le> j \<and> j < n then miso w1 !! (j - Suc i) else (buffer(i := shd (miso w))) j)
       = (if i \<le> j \<and> j < n then miso w !! (j - i) else buffer j)"
      proof (cases "Suc i \<le> j")
        case True
        then have "j - i = Suc (j - Suc i)" by simp
        with True show ?thesis by (simp add: w1_def)
      next
        case False
        with \<open>i < n\<close> show ?thesis by (cases "j = i") auto
      qed
    qed
    also have "w1\<lparr>miso := sdrop (n - Suc i) (miso w1),
          trace := trace w1 @ map (\<lambda>j. SpiTransfer 0x00 (miso w1 !! j)) [0..<n - Suc i]\<rparr>
       = w\<lparr>miso := sdrop (n - i) (miso w),
        trace := trace w @ map (\<lambda>j. SpiTransfer 0x00 (miso w !! j)) [0..<n - i]\<rparr>"
      by (simp add: w1_def n map_upt_Suc del: upt_Suc)
    finally show ?thesis .
  next
    case False
    then have "(\<lambda>j. if i \<le> j \<and> j < n then miso w !! (j - i) else buffer j) = buffer"
      by (intro ext) auto
    with False show ?thesis by (subst fifo_read_loop.simps) simp
  qed
qed


lemma accesses_tx_polls:
  "accesses_at t Idle (tx_polls k m @ es) =
     map (\<lambda>j. (t + j, RegRead REG_IRQ_FLAGS (m !! (2 * j + 1)))) [0..<k]
       @ accesses_at (t + k) Idle es"
proof (induction k arbitrary: t m)
  case 0
  show ?case by simp
next
  case (Suc k)
  show ?case
    by (simp add: accesses_read_frame Suc map_upt_Suc del: upt_Suc)
qed

lemma elapsed_Suc:
  assumes "unat (c - start :: u32) \<le> 2000"
  shows "unat (c + 1 - start) = Suc (unat (c - start))"
proof -
  have e2: "c + 1 - start = (c - start) + 1" by simp
  from assms have e3: "unat ((c - start) + 1) = Suc (unat (c - start))"
    by (simp add: unat_word_ariths)
  show ?thesis by (simp only: e2 e3)
qed

lemma snth_sdrop2_odd: "sdrop 2 m !! (2 * j + 1) = m !! (2 * Suc j + 1)"
proof -
  have "2 + (2 * j + 1) = 2 * Suc j + 1" by simp
  then show ?thesis by (simp only: sdrop_snth)
qed

lemma not_late: "unat (c - start :: u32) \<le> 2000 \<Longrightarrow> \<not> 2000 < c - start"
  by (simp add: word_less_nat_alt)

lemma late: "unat (c - start :: u32) = 2001 \<Longrightarrow> 2000 < c - start"
  by (simp add: word_less_nat_alt)

lemma wait_tx_done_success:
  assumes "\<forall>j<k. (miso w !! (2 * j + 1)) AND IRQ_TX_DONE_MASK = 0"
    and "(miso w !! (2 * k + 1)) AND IRQ_TX_DONE_MASK \<noteq> 0"
    and "unat (clock w - start) + k \<le> 2001"
  shows "wait_tx_done start w =
     (True, w\<lparr>miso := sdrop (2 * k + 2) (miso w), clock := clock w + of_nat k,
        trace := trace w @ tx_polls k (miso w)
          @ read_frame REG_IRQ_FLAGS (miso w !! (2 * k)) (miso w !! (2 * k + 1))\<rparr>)"
  using assms
proof (induction k arbitrary: w)
  case 0
  then show ?case
    by (subst wait_tx_done.simps) (simp add: read_lora_register_eq numeral_2_eq_2)
next
  case (Suc k)
  define w2 where "w2 = w\<lparr>miso := sdrop 2 (miso w), clock := clock w + 1,
    trace := trace w @ read_frame REG_IRQ_FLAGS (miso w !! 0) (miso w !! 1) @ [Delay 1]\<rparr>"
  have m2: "miso w2 = sdrop 2 (miso w)" by (simp add: w2_def)
  from Suc.prems(1) have f0: "(miso w !! 1) AND IRQ_TX_DONE_MASK = 0"
    by (metis One_nat_def add.commute add.right_neutral mult_0_right plus_1_eq_Suc zero_less_Suc)
  from Suc.prems(3) have e: "unat (clock w - start) \<le> 2000" by simp
  have step: "wait_tx_done start w = wait_tx_done start w2"
    using f0 not_late[OF e]
    by (subst wait_tx_done.simps)
      (simp add: read_lora_register_eq millis_def delay_def emit_def w2_def)
  have p1: "\<forall>j<k. (miso w2 !! (2 * j + 1)) AND IRQ_TX_DONE_MASK = 0"
  proof (intro allI impI)
    fix j assume "j < k"
    then have "Suc j < Suc k" by simp
    with Suc.prems(1) have "(miso w !! (2 * Suc j + 1)) AND IRQ_TX_DONE_MASK = 0" by blast
    then show "(miso w2 !! (2 * j + 1)) AND IRQ_TX_DONE_MASK = 0"
      by (simp only: m2 snth_sdrop2_odd)
  qed
  have p2: "(miso w2 !! (2 * k + 1)) AND IRQ_TX_DONE_MASK \<noteq> 0"
    using Suc.prems(2) unfolding m2 snth_sdrop2_odd .
  from Suc.prems(3) have p3: "unat (clock w2 - start) + k \<le> 2001"
    by (simp add: w2_def elapsed_Suc[OF e])
  show ?case
    unfolding step Suc.IH[OF p1 p2 p3]
    by (simp add: w2_def sdrop_snth numeral_2_eq_2)
qed


lemma wait_tx_done_timeout:
  assumes "\<forall>j\<le>k. (miso w !! (2 * j + 1)) AND IRQ_TX_DONE_MASK = 0"
    and "unat (clock w - start) + k = 2001"
  shows "wait_tx_done start w =
     (False, w\<lparr>miso := sdrop (2 * k + 2) (miso w), clock := clock w + of_nat k,
        trace := trace w @ tx_polls k (miso w)
          @ read_frame REG_IRQ_FLAGS (miso w !! (2 * k)) (miso w !! (2 * k + 1))
          @ [SerialPrintln (Text ''TX timeout!'')]\<rparr>)"
  using assms
proof (induction k arbitrary: w)
  case 0
  then have "(miso w !! 1) AND IRQ_TX_DONE_MASK = 0" by simp
  moreover from 0 have "2000 < clock w - start" by (simp add: late)
  ultimately show ?case
    by (subst wait_tx_done.simps)
      (simp add: read_lora_register_eq numeral_2_eq_2 millis_def Serial_println_def emit_def)
next
  case (Suc k)
  define w2 where "w2 = w\<lparr>miso := sdrop 2 (miso w), clock := clock w + 1,
    trace := trace w @ read_frame REG_IRQ_FLAGS (miso w !! 0) (miso w !! 1) @ [Delay 1]\<rparr>"
  have m2: "miso w2 = sdrop 2 (miso w)" by (simp add: w2_def)
  from Suc.prems(1) have "(miso w !! (2 * 0 + 1)) AND IRQ_TX_DONE_MASK = 0" by blast
  then have f0: "(miso w !! 1) AND IRQ_TX_DONE_MASK = 0" by simp
  from Suc.prems(2) have e: "unat (clock w - start) \<le> 2000" by simp
  have step: "wait_tx_done start w = wait_tx_done start w2"
    using f0 not_late[OF e]
    by (subst wait_tx_done.simps)
      (simp add: read_lora_register_eq millis_def delay_def emit_def w2_def)
  have p1: "\<forall>j\<le>k. (miso w2 !! (2 * j + 1)) AND IRQ_TX_DONE_MASK = 0"
  proof (intro allI impI)
    fix j assume "j \<le> k"
    then have "Suc j \<le> Suc k" by simp
    with Suc.prems(1) have "(miso w !! (2 * Suc j + 1)) AND IRQ_TX_DONE_MASK = 0" by blast
    then show "(miso w2 !! (2 * j + 1)) AND IRQ_TX_DONE_MASK = 0"
      by (simp only: m2 snth_sdrop2_odd)
  qed
  from Suc.prems(2) have p3: "unat (clock w2 - start) + k = 2001"
    by (simp add: w2_def elapsed_Suc[OF e])
  show ?case
    unfolding step Suc.IH[OF p1 p3]
    by (simp add: w2_def sdrop_snth numeral_2_eq_2)
qed

lemma send_prologue_eq:
  "(let w = write_lora_register REG_OP_MODE (MODE_LONG_RANGE_MODE OR MODE_STDBY) w;
          w = write_lora_register REG_IRQ_FLAGS 0xFF w;
          w = write_lora_register REG_FIFO_ADDR_PTR 0x00 w;
          w = digitalWrite LORA_CS_PIN LOW w;
          w = snd (SPI_transfer (REG_FIFO OR 0x80) w);
          w = fifo_write_loop 0 (unat len) message w;
          w = digitalWrite LORA_CS_PIN HIGH w;
          w = write_lora_register REG_PAYLOAD_LENGTH len w;
          w = write_lora_register REG_OP_MODE (MODE_LONG_RANGE_MODE OR MODE_TX) w in w)
   = w\<lparr>miso := sdrop (11 + unat len) (miso w),
        trace := trace w @ send_prologue message len (miso w)\<rparr>"
  by (simp add: Let_def write_lora_register_eq fifo_write_loop_eq digitalWrite_def
      SPI_transfer_def emit_def send_prologue_def sdrop_snth add.commute)


lemma send_a_msg_wait:
  "send_a_msg message len w =
     (let w1 = w\<lparr>miso := sdrop (11 + unat len) (miso w),
                 trace := trace w @ send_prologue message len (miso w)\<rparr>;
          (done, w2) = wait_tx_done (clock w1) w1
      in if \<not> done then (False, w2)
         else (True, write_lora_register REG_OP_MODE (MODE_LONG_RANGE_MODE OR MODE_STDBY)
                 (write_lora_register REG_IRQ_FLAGS IRQ_TX_DONE_MASK w2)))"
  unfolding send_a_msg_def Let_def send_prologue_eq[unfolded Let_def] millis_def
  by (simp add: split_def)

lemma send_a_msg_success:
  assumes "\<forall>j<k. (miso w !! (12 + unat len + 2 * j)) AND IRQ_TX_DONE_MASK = 0"
    and "(miso w !! (12 + unat len + 2 * k)) AND IRQ_TX_DONE_MASK \<noteq> 0"
    and "k \<le> 2001"
  shows "send_a_msg message len w =
     (True, w\<lparr>miso := sdrop (17 + unat len + 2 * k) (miso w), clock := clock w + of_nat k,
        trace := trace w @ send_events message len (miso w) k True\<rparr>)"
proof -
  define w1 where "w1 = w\<lparr>miso := sdrop (11 + unat len) (miso w),
                 trace := trace w @ send_prologue message len (miso w)\<rparr>"
  have ix: "11 + unat len + (2 * j + 1) = 12 + unat len + 2 * j" for j by simp
  have p1: "\<forall>j<k. (miso w1 !! (2 * j + 1)) AND IRQ_TX_DONE_MASK = 0"
    using assms(1) by (simp add: w1_def sdrop_snth ix)
  have p2: "(miso w1 !! (2 * k + 1)) AND IRQ_TX_DONE_MASK \<noteq> 0"
    using assms(2) by (simp add: w1_def sdrop_snth ix)
  have p3: "unat (clock w1 - clock w1) + k \<le> 2001"
    using assms(3) by simp
  show ?thesis
    unfolding send_a_msg_wait Let_def w1_def[symmetric]
      wait_tx_done_success[OF p1 p2 p3]
    by (simp add: w1_def write_lora_register_eq send_events_def send_epilogue_def sdrop_snth
        add.commute add.left_commute)
qed

lemma send_a_msg_timeout:
  assumes "\<forall>j\<le>2001. (miso w !! (12 + unat len + 2 * j)) AND IRQ_TX_DONE_MASK = 0"
  shows "send_a_msg message len w =
     (False, w\<lparr>miso := sdrop (13 + unat len + 2 * 2001) (miso w), clock := clock w + 2001,
        trace := trace w @ send_events message len (miso w) 2001 False\<rparr>)"
proof -
  define w1 where "w1 = w\<lparr>miso := sdrop (11 + unat len) (miso w),
                 trace := trace w @ send_prologue message len (miso w)\<rparr>"
  have ix: "11 + unat len + (2 * j + 1) = 12 + unat len + 2 * j" for j by simp
  have p1: "\<forall>j\<le>2001. (miso w1 !! (2 * j + 1)) AND IRQ_TX_DONE_MASK = 0"
    using assms(1) by (simp add: w1_def sdrop_snth ix)
  have p3: "unat (clock w1 - clock w1) + 2001 = 2001"
    by simp
  show ?thesis
    unfolding send_a_msg_wait Let_def w1_def[symmetric]
      wait_tx_done_timeout[OF p1 p3]
    by (simp add: w1_def send_events_def send_epilogue_def sdrop_snth
        add.commute add.left_commute)
qed


lemma accesses_send_events:
  "accesses_at 0 Idle (send_events message len m k ok) =
     [(0, RegWrite REG_OP_MODE (MODE_LONG_RANGE_MODE OR MODE_STDBY)),
      (0, RegWrite REG_IRQ_FLAGS 0xFF), (0, RegWrite REG_FIFO_ADDR_PTR 0x00)]
     @ map (\<lambda>j. (0, RegWrite REG_FIFO (message j))) [0..<unat len]
     @ [(0, RegWrite REG_PAYLOAD_LENGTH len),
        (0, RegWrite REG_OP_MODE (MODE_LONG_RANGE_MODE OR MODE_TX))]
     @ map (\<lambda>j. (j, RegRead REG_IRQ_FLAGS (m !! (12 + unat len + 2 * j)))) [0..<Suc k]
     @ (if ok then [(k, RegWrite REG_IRQ_FLAGS IRQ_TX_DONE_MASK),
                    (k, RegWrite REG_OP_MODE (MODE_LONG_RANGE_MODE OR MODE_STDBY))]
        else [])"
proof -
  have ix: "11 + unat len + (2 * j + 1) = 12 + unat len + 2 * j" for j by simp
  show ?thesis
    by (cases ok)
      (simp_all add: send_events_def send_prologue_def send_epilogue_def accesses_frames
        accesses_burst accesses_tx_polls sdrop_snth ix del: upt_Suc, simp_all)
qed

lemma check_no_packet:
  assumes "(miso w !! 1) AND IRQ_RX_DONE_MASK = 0"
  shows "check_for_msg buffer maxLength w =
     (0, buffer, w\<lparr>miso := sdrop 2 (miso w),
        trace := trace w @ read_frame REG_IRQ_FLAGS (miso w !! 0) (miso w !! 1)\<rparr>)"
  using assms by (simp add: check_for_msg_def read_lora_register_eq)

lemma check_crc_error:
  assumes "(miso w !! 1) AND IRQ_RX_DONE_MASK \<noteq> 0"
    and "(miso w !! 1) AND IRQ_PAYLOAD_CRC_ERROR \<noteq> 0"
  shows "check_for_msg buffer maxLength w =
     (- 1, buffer, w\<lparr>miso := sdrop 6 (miso w),
        trace := trace w @ read_frame REG_IRQ_FLAGS (miso w !! 0) (miso w !! 1)
          @ write_frame REG_IRQ_FLAGS IRQ_RX_DONE_MASK (miso w !! 2) (miso w !! 3)
          @ SerialPrintln (Text ''CRC error - packet corrupted!'')
          # write_frame REG_IRQ_FLAGS IRQ_PAYLOAD_CRC_ERROR (miso w !! 4) (miso w !! 5)\<rparr>)"
  using assms
  by (simp add: check_for_msg_def read_lora_register_eq write_lora_register_eq Let_def
      Serial_println_def emit_def sdrop_snth)

lemma check_packet:
  fixes w :: world and maxLength :: u8
  assumes "(miso w !! 1) AND IRQ_RX_DONE_MASK \<noteq> 0"
    and "(miso w !! 1) AND IRQ_PAYLOAD_CRC_ERROR = 0"
  defines "n \<equiv> unat (if miso w !! 5 > maxLength then maxLength else miso w !! 5)"
  shows "check_for_msg buffer maxLength w =
     (int n, (\<lambda>j. if j < n then miso w !! (11 + j) else buffer j),
      w\<lparr>miso := sdrop (15 + n) (miso w),
        lastRssi := uint (miso w !! (12 + n)) - (if sint (currentFreq w) < 525 then 164 else 157),
        lastSnr := sint (miso w !! (14 + n)) sdiv 4,
        trace := trace w @ read_frame REG_IRQ_FLAGS (miso w !! 0) (miso w !! 1)
          @ write_frame REG_IRQ_FLAGS IRQ_RX_DONE_MASK (miso w !! 2) (miso w !! 3)
          @ read_frame REG_RX_NB_BYTES (miso w !! 4) (miso w !! 5)
          @ read_frame REG_FIFO_RX_CURRENT_ADDR (miso w !! 6) (miso w !! 7)
          @ write_frame REG_FIFO_ADDR_PTR (miso w !! 7) (miso w !! 8) (miso w !! 9)
          @ DigitalWrite LORA_CS_PIN LOW # SpiTransfer (REG_FIFO AND 0x7F) (miso w !! 10)
          # map (\<lambda>j. SpiTransfer 0x00 (miso w !! (11 + j))) [0..<n]
          @ DigitalWrite LORA_CS_PIN HIGH
          # read_frame REG_PKT_RSSI_VALUE (miso w !! (11 + n)) (miso w !! (12 + n))
          @ read_frame REG_PKT_SNR_VALUE (miso w !! (13 + n)) (miso w !! (14 + n))\<rparr>)"
  using assms(1,2) unfolding n_def
  apply (simp add: check_for_msg_def read_lora_register_eq write_lora_register_eq Let_def
      fifo_read_loop_eq digitalWrite_def SPI_transfer_def emit_def sdrop_snth add.commute add.left_commute
      cong: if_cong)
  done

lemma setup_wrong_chip:
  assumes "miso w !! 1 \<noteq> 0x12"
  shows "setup_ourlora f w =
     (False, w\<lparr>miso := sdrop 2 (miso w), clock := clock w + 20,
        trace := trace w @
           [SerialPrintln (Text (CHR 0x0A # ''=== Initializing OurLoRa ==='')),
            PinMode LORA_CS_PIN OUTPUT, PinMode LORA_RST_PIN OUTPUT,
            PinMode LORA_DIO0_PIN INPUT, DigitalWrite LORA_CS_PIN HIGH,
            DigitalWrite LORA_RST_PIN LOW, Delay 10, DigitalWrite LORA_RST_PIN HIGH, Delay 10]
           @ read_frame REG_VERSION (miso w !! 0) (miso w !! 1)
           @ [SerialPrint (Text ''LoRa Chip Version: 0x''), SerialPrintln (Hex (miso w !! 1)),
              SerialPrintln (Text ''ERROR: LoRa module not detected!'')]\<rparr>)"
  using assms by (simp add: setup_ourlora_def reg_eqs prim_defs Let_def)

lemma setup_right_chip:
  assumes "miso w !! 1 = 0x12"
  shows "setup_ourlora f w =
     (True, w\<lparr>miso := sdrop 36 (miso w), clock := clock w + 40, currentFreq := f,
        trace := trace w @
           [SerialPrintln (Text (CHR 0x0A # ''=== Initializing OurLoRa ==='')),
            PinMode LORA_CS_PIN OUTPUT, PinMode LORA_RST_PIN OUTPUT,
            PinMode LORA_DIO0_PIN INPUT, DigitalWrite LORA_CS_PIN HIGH,
            DigitalWrite LORA_RST_PIN LOW, Delay 10, DigitalWrite LORA_RST_PIN HIGH, Delay 10]
           @ read_frame REG_VERSION (miso w !! 0) 0x12
           @ [SerialPrint (Text ''LoRa Chip Version: 0x''), SerialPrintln (Hex 0x12)]
           @ write_frame REG_OP_MODE (MODE_LONG_RANGE_MODE OR MODE_SLEEP) (miso w !! 2) (miso w !! 3)
           @ [Delay 10]
           @ write_frame REG_FRF_MSB (ucast (drop_bit 16 (frf_word f))) (miso w !! 4) (miso w !! 5)
           @ write_frame REG_FRF_MID (ucast (drop_bit 8 (frf_word f))) (miso w !! 6) (miso w !! 7)
           @ write_frame REG_FRF_LSB (ucast (frf_word f)) (miso w !! 8) (miso w !! 9)
           @ write_frame REG_FIFO_TX_BASE_ADDR 0x00 (miso w !! 10) (miso w !! 11)
           @ write_frame REG_FIFO_RX_BASE_ADDR 0x00 (miso w !! 12) (miso w !! 13)
           @ read_frame REG_LNA (miso w !! 14) (miso w !! 15)
           @ write_frame REG_LNA (miso w !! 15 OR 0x03) (miso w !! 16) (miso w !! 17)
           @ write_frame REG_MODEM_CONFIG_1 0x72 (miso w !! 18) (miso w !! 19)
           @ write_frame REG_MODEM_CONFIG_2 0x74 (miso w !! 20) (miso w !! 21)
           @ write_frame REG_MODEM_CONFIG_3 0x04 (miso w !! 22) (miso w !! 23)
           @ write_frame REG_PREAMBLE_MSB 0x00 (miso w !! 24) (miso w !! 25)
           @ write_frame REG_PREAMBLE_LSB 0x08 (miso w !! 26) (miso w !! 27)
           @ write_frame REG_SYNC_WORD 0x12 (miso w !! 28) (miso w !! 29)
           @ write_frame REG_PA_CONFIG (PA_BOOST OR 0x0F) (miso w !! 30) (miso w !! 31)
           @ write_frame REG_PA_DAC 0x87 (miso w !! 32) (miso w !! 33)
           @ write_frame REG_OP_MODE (MODE_LONG_RANGE_MODE OR MODE_STDBY) (miso w !! 34) (miso w !! 35)
           @ [Delay 10, SerialPrint (Text ''OurLoRa initialized at ''),
              SerialPrint (Dec (sint f)), SerialPrintln (Text '' MHz!'')]\<rparr>)"
  using assms by (simp add: setup_ourlora_def reg_eqs prim_defs Let_def sdrop_snth)

lemma setup_right_chip_accesses:
  assumes "miso w !! 1 = 0x12"
  shows "timed_accesses w (snd (setup_ourlora f w)) =
    [(20, RegRead REG_VERSION 0x12),
     (20, RegWrite REG_OP_MODE (MODE_LONG_RANGE_MODE OR MODE_SLEEP)),
     (30, RegWrite REG_FRF_MSB (ucast (drop_bit 16 (frf_word f)))),
     (30, RegWrite REG_FRF_MID (ucast (drop_bit 8 (frf_word f)))),
     (30, RegWrite REG_FRF_LSB (ucast (frf_word f))),
     (30, RegWrite REG_FIFO_TX_BASE_ADDR 0x00),
     (30, RegWrite REG_FIFO_RX_BASE_ADDR 0x00),
     (30, RegRead REG_LNA (miso w !! 15)),
     (30, RegWrite REG_LNA (miso w !! 15 OR 0x03)),
     (30, RegWrite REG_MODEM_CONFIG_1 0x72),
     (30, RegWrite REG_MODEM_CONFIG_2 0x74),
     (30, RegWrite REG_MODEM_CONFIG_3 0x04),
     (30, RegWrite REG_PREAMBLE_MSB 0x00),
     (30, RegWrite REG_PREAMBLE_LSB 0x08),
     (30, RegWrite REG_SYNC_WORD 0x12),
     (30, RegWrite REG_PA_CONFIG (PA_BOOST OR 0x0F)),
     (30, RegWrite REG_PA_DAC 0x87),
     (30, RegWrite REG_OP_MODE (MODE_LONG_RANGE_MODE OR MODE_STDBY))]"
  by (simp add: setup_right_chip[OF assms] timed_accesses_def accesses_frames)

lemma scast_nonneg: "0 \<le> sint (f::u32) \<Longrightarrow> uint (scast f :: u64) = sint f"
proof -
  assume a: "0 \<le> sint f"
  have "sint f < 2 ^ 31" using sint_lt[of f] by simp
  then have b: "sint f < 2 ^ 64" by (rule less_trans) simp
  have "uint (scast f :: u64) = take_bit 64 (sint f)"
    by (simp only: scast_eq uint_word_of_int_eq) simp
  also have "\<dots> = sint f" using a b by (simp add: take_bit_int_eq_self)
  finally show ?thesis .
qed

lemma frf_wide_exact:
  assumes "0 \<le> sint f" "sint f < 1024"
  shows "uint (frf_wide f) = sint f * 1000000 * 2 ^ 19"
proof -
  have u: "uint (scast f :: u64) = sint f" using assms(1) by (rule scast_nonneg)
  have b1: "sint f * 1000000 < 2 ^ 64" using assms by simp
  have m: "uint ((scast f :: u64) * 1000000) = sint f * 1000000"
    using assms b1 by (simp add: uint_word_ariths u take_bit_int_eq_self flip: take_bit_eq_mod)
  have b2: "sint f * 1000000 * 2 ^ 19 < 2 ^ 64" using assms by simp
  have "uint (frf_wide f) = take_bit LENGTH(64) (push_bit 19 (uint ((scast f :: u64) * 1000000)))"
    unfolding frf_wide_def by (rule unsigned_push_bit_eq)
  also have "\<dots> = take_bit 64 (push_bit 19 (sint f * 1000000))"
    by (simp only: m) simp
  also have "\<dots> = sint f * 1000000 * 2 ^ 19"
    using assms b2 by (simp add: take_bit_int_eq_self push_bit_eq_mult)
  finally show ?thesis .
qed

lemma frf_word_exact:
  assumes "0 \<le> sint f" "sint f < 1024"
  shows "uint (frf_word f) = sint f * 16384"
proof -
  have "uint (frf_wide f div 32000000) = sint f * 1000000 * 2 ^ 19 div 32000000"
    by (simp add: uint_div frf_wide_exact[OF assms])
  also have "\<dots> = sint f * 16384" by simp
  finally have d: "uint (frf_wide f div 32000000) = sint f * 16384" .
  have "uint (frf_word f) = take_bit 32 (uint (frf_wide f div 32000000))"
    unfolding frf_word_def by (simp add: unsigned_ucast_eq)
  also have "\<dots> = sint f * 16384" using assms by (simp add: d take_bit_int_eq_self)
  finally show ?thesis .
qed

lemma frf_round:
  "round (real_of_int k * 1000000 * 2 ^ 19 / 32000000) = k * 16384"
proof -
  have "real_of_int k * 1000000 * 2 ^ 19 / 32000000 = real_of_int (k * 16384)" by simp
  then show ?thesis by (simp only: round_of_int)
qed

lemma three_bytes:
  fixes y :: int
  assumes "0 \<le> y" "y < 16777216"
  shows "(y div 65536) mod 256 * 65536 + (y div 256) mod 256 * 256 + y mod 256 = y"
proof -
  have q2: "y div 65536 = (y div 256) div 256"
    using zdiv_zmult2_eq[of 256 y 256] by simp
  from assms have "y div 65536 < 256"
    by (simp add: div_less_iff_less_mult pos_imp_zdiv_nonneg_iff)
  moreover from assms have "0 \<le> y div 65536"
    by (simp add: pos_imp_zdiv_nonneg_iff)
  ultimately have hi: "(y div 65536) mod 256 = y div 65536" by simp
  have mid: "(y div 256) mod 256 = y div 256 - 256 * (y div 65536)"
    unfolding q2 by (simp add: minus_mult_div_eq_mod)
  have lo: "y mod 256 = y - 256 * (y div 256)"
    by (simp add: minus_mult_div_eq_mod)
  show ?thesis unfolding hi mid lo by simp
qed

lemma frf_bytes:
  fixes x :: u32
  assumes "uint x < 2 ^ 24"
  shows "uint (ucast (drop_bit 16 x) :: u8) * 65536 + uint (ucast (drop_bit 8 x) :: u8) * 256
           + uint (ucast x :: u8) = uint x"
proof -
  have a: "uint (ucast (drop_bit 16 x) :: u8) = (uint x div 65536) mod 256"
    by (simp add: unsigned_ucast_eq unsigned_drop_bit_eq take_bit_eq_mod drop_bit_eq_div uint_div)
  have b: "uint (ucast (drop_bit 8 x) :: u8) = (uint x div 256) mod 256"
    by (simp add: unsigned_ucast_eq unsigned_drop_bit_eq take_bit_eq_mod drop_bit_eq_div uint_div)
  have c: "uint (ucast x :: u8) = uint x mod 256"
    by (simp add: unsigned_ucast_eq take_bit_eq_mod)
  have "0 \<le> uint x" by simp
  moreover from assms have "uint x < 16777216" by simp
  ultimately show ?thesis unfolding a b c by (rule three_bytes)
qed

lemma reads_from_append: "reads_from r (xs @ ys) = reads_from r xs @ reads_from r ys"
  by (induction r xs rule: reads_from.induct) simp_all

lemma writes_to_append: "writes_to r (xs @ ys) = writes_to r xs @ writes_to r ys"
  by (induction r xs rule: writes_to.induct) simp_all

lemma reads_from_map_read:
  "reads_from r (map (\<lambda>j. RegRead a (g j)) js) = (if a = r then map g js else [])"
  by (induction js) auto

lemma reads_from_map_write: "reads_from r (map (\<lambda>j. RegWrite a (g j)) js) = []"
  by (induction js) simp_all

lemma writes_to_map_write:
  "writes_to r (map (\<lambda>j. RegWrite a (g j)) js) = (if a = r then map g js else [])"
  by (induction js) auto

lemma writes_to_map_read: "writes_to r (map (\<lambda>j. RegRead a (g j)) js) = []"
  by (induction js) simp_all

lemmas access_views = reads_from_append writes_to_append reads_from_map_read
  reads_from_map_write writes_to_map_write writes_to_map_read

lemma check_packet_accesses:
  fixes w :: world and maxLength :: u8
  assumes "(miso w !! 1) AND IRQ_RX_DONE_MASK \<noteq> 0"
    and "(miso w !! 1) AND IRQ_PAYLOAD_CRC_ERROR = 0"
  defines "n \<equiv> unat (if miso w !! 5 > maxLength then maxLength else miso w !! 5)"
  shows "bus_accesses w (snd (snd (check_for_msg buffer maxLength w))) =
     [RegRead REG_IRQ_FLAGS (miso w !! 1), RegWrite REG_IRQ_FLAGS IRQ_RX_DONE_MASK,
      RegRead REG_RX_NB_BYTES (miso w !! 5), RegRead REG_FIFO_RX_CURRENT_ADDR (miso w !! 7),
      RegWrite REG_FIFO_ADDR_PTR (miso w !! 7)]
     @ map (\<lambda>j. RegRead REG_FIFO (miso w !! (11 + j))) [0..<n]
     @ [RegRead REG_PKT_RSSI_VALUE (miso w !! (12 + n)),
        RegRead REG_PKT_SNR_VALUE (miso w !! (14 + n))]"
  unfolding n_def
  by (simp add: check_packet[OF assms(1,2)] bus_accesses_def timed_accesses_def
      accesses_frames accesses_burst comp_def)

lemma clamp_min:
  "unat (if (N::u8) > C then C else N) = min (unat N) (unat C)"
  by (simp add: word_less_nat_alt min_def)

lemma flag_polls_append: "flag_polls (xs @ ys) = flag_polls xs @ flag_polls ys"
  by (induction xs rule: flag_polls.induct) simp_all

lemma flag_polls_map_write: "flag_polls (map (\<lambda>j. (f j, RegWrite a (g j))) js) = []"
  by (induction js) simp_all

lemma flag_polls_map_read:
  "flag_polls (map (\<lambda>j. (f j, RegRead REG_IRQ_FLAGS (g j))) js) = map (\<lambda>j. (f j, g j)) js"
  by (induction js) simp_all

lemma send_a_msg_cases:
  obtains (seen) k where "k \<le> 2001"
      and "\<forall>j<k. (miso w !! (12 + unat len + 2 * j)) AND IRQ_TX_DONE_MASK = 0"
      and "(miso w !! (12 + unat len + 2 * k)) AND IRQ_TX_DONE_MASK \<noteq> 0"
      and "send_a_msg message len w =
        (True, w\<lparr>miso := sdrop (17 + unat len + 2 * k) (miso w), clock := clock w + of_nat k,
           trace := trace w @ send_events message len (miso w) k True\<rparr>)"
  | (timeout) "\<forall>j\<le>2001. (miso w !! (12 + unat len + 2 * j)) AND IRQ_TX_DONE_MASK = 0"
      and "send_a_msg message len w =
        (False, w\<lparr>miso := sdrop (13 + unat len + 2 * 2001) (miso w), clock := clock w + 2001,
           trace := trace w @ send_events message len (miso w) 2001 False\<rparr>)"
proof (cases "\<exists>j\<le>2001. (miso w !! (12 + unat len + 2 * j)) AND IRQ_TX_DONE_MASK \<noteq> 0")
  case True
  define P where "P j \<longleftrightarrow> (miso w !! (12 + unat len + 2 * j)) AND IRQ_TX_DONE_MASK \<noteq> 0" for j
  from True obtain j0 where j0: "j0 \<le> 2001" "P j0" unfolding P_def by blast
  define k where "k = (LEAST j. P j)"
  have pk: "P k" unfolding k_def using j0(2) by (rule LeastI)
  have "k \<le> j0" unfolding k_def using j0(2) by (rule Least_le)
  with j0(1) have k: "k \<le> 2001" by simp
  have before: "\<forall>j<k. \<not> P j" unfolding k_def using not_less_Least by blast
  then have b: "\<forall>j<k. (miso w !! (12 + unat len + 2 * j)) AND IRQ_TX_DONE_MASK = 0"
    unfolding P_def by simp
  from pk have d: "(miso w !! (12 + unat len + 2 * k)) AND IRQ_TX_DONE_MASK \<noteq> 0"
    unfolding P_def .
  show ?thesis by (rule seen[OF k b d send_a_msg_success[OF b d k]])
next
  case False
  then have n: "\<forall>j\<le>2001. (miso w !! (12 + unat len + 2 * j)) AND IRQ_TX_DONE_MASK = 0"
    by simp
  show ?thesis by (rule timeout[OF n send_a_msg_timeout[OF n]])
qed

lemma polls_shape:
  fixes g :: "nat \<Rightarrow> u8"
  defines "ps \<equiv> \<lambda>k. map (\<lambda>j. (j, g j)) [0..<Suc k]"
  shows "ps k \<noteq> []" "map fst (ps k) = [0..<length (ps k)]" "length (ps k) = Suc k"
    "set (butlast (ps k)) = (\<lambda>j. (j, g j)) ` {..<k}" "last (ps k) = (k, g k)"
proof -
  show "ps k \<noteq> []" by (simp add: ps_def)
  show "map fst (ps k) = [0..<length (ps k)]" by (simp add: ps_def comp_def del: upt_Suc)
  show "length (ps k) = Suc k" by (simp add: ps_def)
  have "butlast (ps k) = map (\<lambda>j. (j, g j)) [0..<k]" by (simp add: ps_def)
  then show "set (butlast (ps k)) = (\<lambda>j. (j, g j)) ` {..<k}" by (simp add: lessThan_atLeast0)
  show "last (ps k) = (k, g k)" by (simp add: ps_def)
qed

lemma send_events_polls:
  "flag_polls (accesses_at 0 Idle (send_events message len m k ok)) =
     map (\<lambda>j. (j, m !! (12 + unat len + 2 * j))) [0..<Suc k]"
  unfolding accesses_send_events
  by (simp add: flag_polls_append flag_polls_map_write flag_polls_map_read del: upt_Suc)

lemma send_events_bus:
  "map snd (accesses_at 0 Idle (send_events message len m k ok)) =
     [RegWrite REG_OP_MODE (MODE_LONG_RANGE_MODE OR MODE_STDBY),
      RegWrite REG_IRQ_FLAGS 0xFF, RegWrite REG_FIFO_ADDR_PTR 0x00]
     @ map (\<lambda>j. RegWrite REG_FIFO (message j)) [0..<unat len]
     @ [RegWrite REG_PAYLOAD_LENGTH len,
        RegWrite REG_OP_MODE (MODE_LONG_RANGE_MODE OR MODE_TX)]
     @ map (\<lambda>j. RegRead REG_IRQ_FLAGS (m !! (12 + unat len + 2 * j))) [0..<Suc k]
     @ (if ok then [RegWrite REG_IRQ_FLAGS IRQ_TX_DONE_MASK,
                    RegWrite REG_OP_MODE (MODE_LONG_RANGE_MODE OR MODE_STDBY)]
        else [])"
  unfolding accesses_send_events by (simp add: comp_def del: upt_Suc)

lemma send_outcome_aux:
  assumes res: "send_a_msg message len w =
       (ok, w\<lparr>miso := M, clock := clock w + of_nat k,
          trace := trace w @ send_events message len (miso w) k ok\<rparr>)"
    and k: "k \<le> 2001"
    and before: "\<forall>j<k. (miso w !! (12 + unat len + 2 * j)) AND IRQ_TX_DONE_MASK = 0"
    and final: "ok \<longleftrightarrow> (miso w !! (12 + unat len + 2 * k)) AND IRQ_TX_DONE_MASK \<noteq> 0"
    and late: "\<not> ok \<longrightarrow> k = 2001"
  shows "let (ok, w') = send_a_msg message len w;
       polls = flag_polls (timed_accesses w w')
   in polls \<noteq> [] \<and> map fst polls = [0..<length polls] \<and> length polls \<le> 2002
      \<and> clock w' = clock w + of_nat (length polls - 1)
      \<and> (\<forall>p \<in> set (butlast polls). snd p AND IRQ_TX_DONE_MASK = 0)
      \<and> (ok \<longleftrightarrow> snd (last polls) AND IRQ_TX_DONE_MASK \<noteq> 0)
      \<and> (\<not> ok \<longrightarrow> length polls = 2002 \<and> fst (last polls) = 2001
              \<and> last (writes_to REG_OP_MODE (bus_accesses w w'))
                  = MODE_LONG_RANGE_MODE OR MODE_TX)"
proof -
  define g where "g j = miso w !! (12 + unat len + 2 * j)" for j
  define w' where "w' = w\<lparr>miso := M, clock := clock w + of_nat k,
          trace := trace w @ send_events message len (miso w) k ok\<rparr>"
  define polls where "polls = flag_polls (timed_accesses w w')"
  have tr: "new_events w w' = send_events message len (miso w) k ok"
    by (simp add: w'_def)
  have polls: "polls = map (\<lambda>j. (j, g j)) [0..<Suc k]"
    unfolding polls_def timed_accesses_def tr send_events_polls g_def ..
  note sh = polls_shape[of g k, folded polls]
  have c1: "polls \<noteq> []" by (rule sh)
  have c2: "map fst polls = [0..<length polls]" by (rule sh)
  have len: "length polls = Suc k" by (rule sh)
  from k have c3: "length polls \<le> 2002" unfolding len by simp
  have c4: "clock w' = clock w + of_nat (length polls - 1)"
    unfolding len by (simp add: w'_def)
  have c5: "\<forall>p \<in> set (butlast polls). snd p AND IRQ_TX_DONE_MASK = 0"
    unfolding sh(4) using before by (simp add: g_def)
  have c6: "ok \<longleftrightarrow> snd (last polls) AND IRQ_TX_DONE_MASK \<noteq> 0"
    unfolding sh(5) using final by (simp add: g_def)
  have c7: "\<not> ok \<longrightarrow> length polls = 2002 \<and> fst (last polls) = 2001
              \<and> last (writes_to REG_OP_MODE (bus_accesses w w'))
                  = MODE_LONG_RANGE_MODE OR MODE_TX"
  proof
    assume n: "\<not> ok"
    with late have k2: "k = 2001" by simp
    have "writes_to REG_OP_MODE (bus_accesses w w')
        = [MODE_LONG_RANGE_MODE OR MODE_STDBY, MODE_LONG_RANGE_MODE OR MODE_TX]"
      unfolding bus_accesses_def timed_accesses_def tr send_events_bus
      using n by (simp add: access_views del: upt_Suc)
    then have "last (writes_to REG_OP_MODE (bus_accesses w w')) = MODE_LONG_RANGE_MODE OR MODE_TX"
      by simp
    moreover have "length polls = 2002" unfolding len k2 by simp
    moreover have "fst (last polls) = 2001" unfolding sh(5) k2 by simp
    ultimately show "length polls = 2002 \<and> fst (last polls) = 2001
              \<and> last (writes_to REG_OP_MODE (bus_accesses w w'))
                  = MODE_LONG_RANGE_MODE OR MODE_TX" by blast
  qed
  from c1 c2 c3 c4 c5 c6 c7 show ?thesis
    unfolding Let_def split_def res fst_conv snd_conv w'_def[symmetric] polls_def[symmetric]
    by blast
qed

lemma send_empty_aux:
  assumes res: "send_a_msg message 0 w =
       (ok, w\<lparr>miso := M, clock := clock w + of_nat k,
          trace := trace w @ send_events message 0 (miso w) k ok\<rparr>)"
    and before: "\<forall>j<k. (miso w !! (12 + unat (0 :: u8) + 2 * j)) AND IRQ_TX_DONE_MASK = 0"
    and final: "ok \<longleftrightarrow> (miso w !! (12 + unat (0 :: u8) + 2 * k)) AND IRQ_TX_DONE_MASK \<noteq> 0"
  shows "let (ok, w') = send_a_msg message 0 w;
             acc = bus_accesses w w'
         in writes_to REG_FIFO acc = [] \<and> reads_from REG_FIFO acc = []
            \<and> take 5 acc =
                 [RegWrite REG_OP_MODE (MODE_LONG_RANGE_MODE OR MODE_STDBY),
                  RegWrite REG_IRQ_FLAGS 0xFF, RegWrite REG_FIFO_ADDR_PTR 0x00,
                  RegWrite REG_PAYLOAD_LENGTH 0,
                  RegWrite REG_OP_MODE (MODE_LONG_RANGE_MODE OR MODE_TX)]
            \<and> (ok \<longleftrightarrow> (\<exists>v \<in> set (reads_from REG_IRQ_FLAGS acc). v AND IRQ_TX_DONE_MASK \<noteq> 0))
            \<and> (ok \<longrightarrow> drop (length acc - 2) acc =
                  [RegWrite REG_IRQ_FLAGS IRQ_TX_DONE_MASK,
                   RegWrite REG_OP_MODE (MODE_LONG_RANGE_MODE OR MODE_STDBY)])"
proof -
  define g where "g j = miso w !! (12 + unat (0 :: u8) + 2 * j)" for j
  define w' where "w' = w\<lparr>miso := M, clock := clock w + of_nat k,
          trace := trace w @ send_events message 0 (miso w) k ok\<rparr>"
  define acc where "acc = bus_accesses w w'"
  define tail where "tail = (if ok then [RegWrite REG_IRQ_FLAGS IRQ_TX_DONE_MASK,
                    RegWrite REG_OP_MODE (MODE_LONG_RANGE_MODE OR MODE_STDBY)] else [])"
  have tr: "new_events w w' = send_events message 0 (miso w) k ok"
    by (simp add: w'_def)
  have acc: "acc = [RegWrite REG_OP_MODE (MODE_LONG_RANGE_MODE OR MODE_STDBY),
                  RegWrite REG_IRQ_FLAGS 0xFF, RegWrite REG_FIFO_ADDR_PTR 0x00,
                  RegWrite REG_PAYLOAD_LENGTH 0,
                  RegWrite REG_OP_MODE (MODE_LONG_RANGE_MODE OR MODE_TX)]
                @ map (\<lambda>j. RegRead REG_IRQ_FLAGS (g j)) [0..<Suc k] @ tail"
    unfolding acc_def bus_accesses_def timed_accesses_def tr send_events_bus g_def tail_def
    by simp
  have c1: "writes_to REG_FIFO acc = []" "reads_from REG_FIFO acc = []"
    unfolding acc tail_def by (simp_all add: access_views del: upt_Suc)
  have c2: "take 5 acc = [RegWrite REG_OP_MODE (MODE_LONG_RANGE_MODE OR MODE_STDBY),
                  RegWrite REG_IRQ_FLAGS 0xFF, RegWrite REG_FIFO_ADDR_PTR 0x00,
                  RegWrite REG_PAYLOAD_LENGTH 0,
                  RegWrite REG_OP_MODE (MODE_LONG_RANGE_MODE OR MODE_TX)]"
    unfolding acc by simp
  have rd: "reads_from REG_IRQ_FLAGS acc = map g [0..<Suc k]"
    unfolding acc tail_def by (simp add: access_views del: upt_Suc)
  have "(\<exists>v \<in> set (map g [0..<Suc k]). v AND IRQ_TX_DONE_MASK \<noteq> 0)
      \<longleftrightarrow> g k AND IRQ_TX_DONE_MASK \<noteq> 0"
    using before unfolding g_def[symmetric] by (auto simp add: less_Suc_eq)
  with final have c3: "ok \<longleftrightarrow> (\<exists>v \<in> set (reads_from REG_IRQ_FLAGS acc). v AND IRQ_TX_DONE_MASK \<noteq> 0)"
    unfolding rd g_def by simp
  have c4: "ok \<longrightarrow> drop (length acc - 2) acc =
                  [RegWrite REG_IRQ_FLAGS IRQ_TX_DONE_MASK,
                   RegWrite REG_OP_MODE (MODE_LONG_RANGE_MODE OR MODE_STDBY)]"
    unfolding acc tail_def by simp
  from c1 c2 c3 c4 show ?thesis
    unfolding Let_def split_def res fst_conv snd_conv w'_def[symmetric] acc_def[symmetric]
    by blast
qed

lemma new_events_same [simp]: "new_events w w = []"
  by (simp add: new_events_def)

lemma mode_writes_setup:
  "set (writes_to REG_OP_MODE (bus_accesses w (snd (setup_ourlora f w)))) \<subseteq> {0x80, 0x81, 0x83, 0x85}"
proof (cases "miso w !! 1 = 0x12")
  case True
  show ?thesis
    unfolding bus_accesses_def setup_right_chip_accesses[OF True] by simp
next
  case False
  show ?thesis
    unfolding bus_accesses_def timed_accesses_def setup_wrong_chip[OF False]
    by (simp add: accesses_frames)
qed

lemma mode_writes_send:
  "set (writes_to REG_OP_MODE (bus_accesses w (snd (send_a_msg message len w)))) \<subseteq> {0x80, 0x81, 0x83, 0x85}"
proof (cases rule: send_a_msg_cases[of w len message])
  case (seen k)
  show ?thesis
    unfolding seen(4) bus_accesses_def timed_accesses_def
    by (simp add: send_events_bus access_views del: upt_Suc)
next
  case timeout
  show ?thesis
    unfolding timeout(2) bus_accesses_def timed_accesses_def
    by (simp add: send_events_bus access_views del: upt_Suc)
qed

lemma mode_writes_check:
  "writes_to REG_OP_MODE (bus_accesses w (snd (snd (check_for_msg buffer maxLength w)))) = []"
proof (cases "(miso w !! 1) AND IRQ_RX_DONE_MASK = 0")
  case True
  show ?thesis
    unfolding check_no_packet[OF True] bus_accesses_def timed_accesses_def
    by (simp add: accesses_frames)
next
  case rx: False
  show ?thesis
  proof (cases "(miso w !! 1) AND IRQ_PAYLOAD_CRC_ERROR = 0")
    case True
    show ?thesis
      unfolding check_packet_accesses[OF rx True] by (simp add: access_views del: upt_Suc)
  next
    case False
    show ?thesis
      unfolding check_crc_error[OF rx False] bus_accesses_def timed_accesses_def
      by (simp add: accesses_frames)
  qed
qed

lemma mode_writes_step:
  "set (writes_to REG_OP_MODE (bus_accesses w (step c w))) \<subseteq> {0x80, 0x81, 0x83, 0x85}"
proof (cases c)
  case (Setup f)
  then show ?thesis using mode_writes_setup by simp
next
  case (Send message len)
  then show ?thesis using mode_writes_send by simp
next
  case (Check buffer maxLength)
  then show ?thesis by (simp add: mode_writes_check)
next
  case StartListening
  then show ?thesis
    by (simp add: start_listening_def write_lora_register_eq bus_accesses_def
        timed_accesses_def accesses_frames sdrop_snth)
next
  case GetSignalStrength
  then show ?thesis
    by (simp add: get_signal_strength_def bus_accesses_def timed_accesses_def)
next
  case GetSignalQuality
  then show ?thesis
    by (simp add: get_signal_quality_def bus_accesses_def timed_accesses_def)
next
  case GoToSleep
  then show ?thesis
    by (simp add: go_to_sleep_def write_lora_register_eq bus_accesses_def
        timed_accesses_def accesses_frames)
next
  case WakeUp
  then show ?thesis
    by (simp add: wake_up_lora_def write_lora_register_eq bus_accesses_def
        timed_accesses_def accesses_frames delay_def emit_def)
next
  case (SetTxPower p)
  then show ?thesis
    by (simp add: set_tx_power_def write_lora_register_eq bus_accesses_def
        timed_accesses_def accesses_frames Let_def)
next
  case (SetNetworkId s)
  then show ?thesis
    by (simp add: set_network_id_def write_lora_register_eq bus_accesses_def
        timed_accesses_def accesses_frames)
qed

lemma step_keeps_signal:
  assumes "\<not> rx_success c w"
  shows "lastRssi (step c w) = lastRssi w \<and> lastSnr (step c w) = lastSnr w"
proof (cases c)
  case (Setup f)
  show ?thesis
  proof (cases "miso w !! 1 = 0x12")
    case True
    show ?thesis unfolding Setup step.simps setup_right_chip[OF True] by simp
  next
    case False
    show ?thesis unfolding Setup step.simps setup_wrong_chip[OF False] by simp
  qed
next
  case (Send message len)
  show ?thesis
  proof (cases rule: send_a_msg_cases[of w len message])
    case (seen k)
    show ?thesis unfolding Send step.simps seen(4) by simp
  next
    case timeout
    show ?thesis unfolding Send step.simps timeout(2) by simp
  qed
next
  case (Check buffer maxLength)
  show ?thesis
  proof (cases "(miso w !! 1) AND IRQ_RX_DONE_MASK = 0")
    case True
    show ?thesis unfolding Check step.simps check_no_packet[OF True] by simp
  next
    case rx: False
    with assms Check have crc: "(miso w !! 1) AND IRQ_PAYLOAD_CRC_ERROR \<noteq> 0"
      by (simp add: read_lora_register_eq)
    show ?thesis unfolding Check step.simps check_crc_error[OF rx crc] by simp
  qed
next
  case StartListening
  then show ?thesis by (simp add: start_listening_def write_lora_register_eq)
next
  case GetSignalStrength
  then show ?thesis by (simp add: get_signal_strength_def)
next
  case GetSignalQuality
  then show ?thesis by (simp add: get_signal_quality_def)
next
  case GoToSleep
  then show ?thesis by (simp add: go_to_sleep_def write_lora_register_eq)
next
  case WakeUp
  then show ?thesis by (simp add: wake_up_lora_def write_lora_register_eq delay_def emit_def)
next
  case (SetTxPower p)
  then show ?thesis by (simp add: set_tx_power_def write_lora_register_eq Let_def)
next
  case (SetNetworkId s)
  then show ?thesis by (simp add: set_network_id_def write_lora_register_eq)
qed

lemma run_keeps_signal:
  "no_rx_success cs w \<Longrightarrow> lastRssi (run cs w) = lastRssi w \<and> lastSnr (run cs w) = lastSnr w"
proof (induction cs arbitrary: w)
  case Nil
  show ?case by simp
next
  case (Cons c cs)
  from Cons.prems have a: "\<not> rx_success c w" and b: "no_rx_success cs (step c w)"
    by simp_all
  from Cons.IH[OF b] step_keeps_signal[OF a] show ?case by simp
qed

section \<open>The claims\<close>

subsection \<open>C1: the frequency word\<close>

text \<open>
  Claim C1. For every frequency from 0 to 1023 MHz (the frequencies whose control word
  fits the chip's 24 bits, among them 433, 868 and 915) and a chip that identifies
  itself, \<open>setup_ourlora\<close> computes the word in 64 bits without any wrap-around, the word
  is \<open>round (f * 1000000 * 2^19 / 32000000)\<close> and is below \<open>2^24\<close>, the three bytes
  written to the frequency registers are its bytes from the most significant down, and a
  larger frequency gives a larger word; 433, 868 and 915 MHz give 0x6C4000, 0xD90000
  and 0xE4C000.
\<close>

theorem setup_ourlora_frequency_word:
  assumes chip: "fst (read_lora_register REG_VERSION w) = 0x12"
    and valid: "0 \<le> sint f" "sint f < 1024"
  shows "let acc = bus_accesses w (snd (setup_ourlora f w)) in
    uint (frf_wide f) = sint f * 1000000 * 2 ^ 19
    \<and> uint (frf_word f) = round (real_of_int (sint f) * 1000000 * 2 ^ 19 / 32000000)
    \<and> frf_word f < 2 ^ 24
    \<and> (\<exists>msb mid lsb.
          writes_to REG_FRF_MSB acc = [msb] \<and> writes_to REG_FRF_MID acc = [mid]
          \<and> writes_to REG_FRF_LSB acc = [lsb]
          \<and> uint msb * 65536 + uint mid * 256 + uint lsb = uint (frf_word f))
    \<and> (0 \<le> sint g \<and> sint g < 1024 \<and> sint f < sint g \<longrightarrow> frf_word f < frf_word g)
    \<and> frf_word 433 = 0x6C4000 \<and> frf_word 868 = 0xD90000 \<and> frf_word 915 = 0xE4C000"
proof -
  from chip have c: "miso w !! 1 = 0x12" by (simp add: read_lora_register_eq)
  have x: "uint (frf_word f) = sint f * 16384" by (rule frf_word_exact[OF valid])
  have wide: "uint (frf_wide f) = sint f * 1000000 * 2 ^ 19" by (rule frf_wide_exact[OF valid])
  have rnd: "uint (frf_word f) = round (real_of_int (sint f) * 1000000 * 2 ^ 19 / 32000000)"
    by (simp only: x frf_round)
  from valid have small: "uint (frf_word f) < 2 ^ 24" by (simp add: x)
  then have lt: "frf_word f < 2 ^ 24" by (simp add: word_less_def)
  have bytes: "uint (ucast (drop_bit 16 (frf_word f)) :: u8) * 65536
      + uint (ucast (drop_bit 8 (frf_word f)) :: u8) * 256
      + uint (ucast (frf_word f) :: u8) = uint (frf_word f)"
    by (rule frf_bytes[OF small])
  have wr: "\<exists>msb mid lsb.
          writes_to REG_FRF_MSB (bus_accesses w (snd (setup_ourlora f w))) = [msb]
          \<and> writes_to REG_FRF_MID (bus_accesses w (snd (setup_ourlora f w))) = [mid]
          \<and> writes_to REG_FRF_LSB (bus_accesses w (snd (setup_ourlora f w))) = [lsb]
          \<and> uint msb * 65536 + uint mid * 256 + uint lsb = uint (frf_word f)"
    using bytes by (simp add: bus_accesses_def setup_right_chip_accesses[OF c])
  have mono: "0 \<le> sint g \<and> sint g < 1024 \<and> sint f < sint g \<longrightarrow> frf_word f < frf_word g"
  proof (intro impI, elim conjE)
    assume g: "0 \<le> sint g" "sint g < 1024" and fg: "sint f < sint g"
    have "uint (frf_word g) = sint g * 16384" by (rule frf_word_exact[OF g])
    with x fg show "frf_word f < frf_word g" by (simp add: word_less_def)
  qed
  have ex: "frf_word 433 = 0x6C4000" "frf_word 868 = 0xD90000" "frf_word 915 = 0xE4C000"
    by (simp_all add: frf_word_def frf_wide_def)
  show ?thesis
    unfolding Let_def using wide rnd lt wr mono ex by blast
qed

theorem setup_ourlora_frequency_word_witness:
  "fst (read_lora_register REG_VERSION (boot (sconst 0x12) 0)) = 0x12
   \<and> 0 \<le> sint (433 :: u32) \<and> sint (433 :: u32) < 1024
   \<and> 0 \<le> sint (868 :: u32) \<and> sint (868 :: u32) < 1024 \<and> sint (433 :: u32) < sint (868 :: u32)
   \<and> uint (frf_word 433) = round (real_of_int (sint (433 :: u32)) * 1000000 * 2 ^ 19 / 32000000)
   \<and> frf_word 433 < frf_word 868
   \<and> writes_to REG_FRF_MSB (bus_accesses (boot (sconst 0x12) 0)
        (snd (setup_ourlora 433 (boot (sconst 0x12) 0)))) = [0x6C]"
proof -
  have h1: "fst (read_lora_register REG_VERSION (boot (sconst 0x12) 0)) = 0x12"
    by (simp add: read_lora_register_eq boot_def)
  have h2: "0 \<le> sint (433 :: u32)" and h3: "sint (433 :: u32) < 1024" by simp_all
  have g: "0 \<le> sint (868 :: u32) \<and> sint (868 :: u32) < 1024 \<and> sint (433 :: u32) < sint (868 :: u32)"
    by simp
  have m: "miso (boot (sconst 0x12) 0) !! 1 = 0x12" by (simp add: boot_def)
  have b: "writes_to REG_FRF_MSB (bus_accesses (boot (sconst 0x12) 0)
        (snd (setup_ourlora 433 (boot (sconst 0x12) 0)))) = [0x6C]"
    by (simp add: bus_accesses_def setup_right_chip_accesses[OF m] frf_word_def frf_wide_def)
  from setup_ourlora_frequency_word[OF h1 h2 h3, of 868] h1 h2 h3 g b show ?thesis
    unfolding Let_def by blast
qed

subsection \<open>C3: the chip that does not identify itself\<close>

text \<open>
  Claim C3. When the version register answers anything but 0x12, \<open>setup_ourlora\<close>
  returns false at once: the version read is its only bus access, and the stored
  frequency is not written (it keeps the value it had, 0 after program start).
\<close>

theorem setup_ourlora_wrong_chip:
  assumes "fst (read_lora_register REG_VERSION w) \<noteq> 0x12"
  shows "fst (setup_ourlora frequency_mhz w) = False
         \<and> bus_accesses w (snd (setup_ourlora frequency_mhz w))
             = [RegRead REG_VERSION (fst (read_lora_register REG_VERSION w))]
         \<and> currentFreq (snd (setup_ourlora frequency_mhz w)) = currentFreq w"
proof -
  from assms have a: "miso w !! 1 \<noteq> 0x12" by (simp add: read_lora_register_eq)
  show ?thesis
    by (simp add: setup_wrong_chip[OF a] read_lora_register_eq bus_accesses_def
        timed_accesses_def accesses_frames)
qed

theorem setup_ourlora_wrong_chip_witness:
  "fst (read_lora_register REG_VERSION (boot (sconst 0x22) 0)) \<noteq> 0x12
   \<and> fst (setup_ourlora 433 (boot (sconst 0x22) 0)) = False
   \<and> bus_accesses (boot (sconst 0x22) 0) (snd (setup_ourlora 433 (boot (sconst 0x22) 0)))
        = [RegRead REG_VERSION 0x22]
   \<and> currentFreq (snd (setup_ourlora 433 (boot (sconst 0x22) 0))) = 0"
proof -
  have h: "fst (read_lora_register REG_VERSION (boot (sconst 0x22) 0)) \<noteq> 0x12"
    by (simp add: read_lora_register_eq boot_def)
  from setup_ourlora_wrong_chip[OF h, of 433] h show ?thesis
    by (auto simp add: read_lora_register_eq boot_def)
qed

subsection \<open>C6: a poll that finds no packet\<close>

text \<open>
  Claim C6. When the interrupt flags that \<open>check_for_msg\<close> reads have the RX-done bit
  clear, it returns 0, leaves the caller's buffer as it was, and the only thing it does
  is the one read of the flags register: that read is the only bus access, and the
  signal values, the stored frequency and the clock are unchanged.
\<close>

theorem check_for_msg_no_packet:
  assumes "fst (read_lora_register REG_IRQ_FLAGS w) AND IRQ_RX_DONE_MASK = 0"
  shows "check_for_msg buffer maxLength w =
           (0, buffer, snd (read_lora_register REG_IRQ_FLAGS w))
         \<and> bus_accesses w (snd (snd (check_for_msg buffer maxLength w)))
             = [RegRead REG_IRQ_FLAGS (fst (read_lora_register REG_IRQ_FLAGS w))]
         \<and> lastRssi (snd (snd (check_for_msg buffer maxLength w))) = lastRssi w
         \<and> lastSnr (snd (snd (check_for_msg buffer maxLength w))) = lastSnr w
         \<and> currentFreq (snd (snd (check_for_msg buffer maxLength w))) = currentFreq w
         \<and> clock (snd (snd (check_for_msg buffer maxLength w))) = clock w"
proof -
  from assms have a: "(miso w !! 1) AND IRQ_RX_DONE_MASK = 0"
    by (simp add: read_lora_register_eq)
  show ?thesis
    by (simp add: check_no_packet[OF a] read_lora_register_eq bus_accesses_def
        timed_accesses_def accesses_frames)
qed

theorem check_for_msg_no_packet_witness:
  "fst (read_lora_register REG_IRQ_FLAGS (boot (sconst 0x20) 7)) AND IRQ_RX_DONE_MASK = 0
   \<and> fst (check_for_msg (\<lambda>j. 0xAA) 16 (boot (sconst 0x20) 7)) = 0
   \<and> fst (snd (check_for_msg (\<lambda>j. 0xAA) 16 (boot (sconst 0x20) 7))) 3 = 0xAA
   \<and> bus_accesses (boot (sconst 0x20) 7)
        (snd (snd (check_for_msg (\<lambda>j. 0xAA) 16 (boot (sconst 0x20) 7))))
      = [RegRead REG_IRQ_FLAGS 0x20]"
proof -
  have h: "fst (read_lora_register REG_IRQ_FLAGS (boot (sconst 0x20) 7)) AND IRQ_RX_DONE_MASK = 0"
    by (simp add: read_lora_register_eq boot_def)
  from check_for_msg_no_packet[OF h, of "\<lambda>j. 0xAA" 16] h show ?thesis
    by (auto simp add: read_lora_register_eq boot_def)
qed

subsection \<open>C5: a packet with a CRC error\<close>

text \<open>
  Claim C5. When the flags read have both the RX-done and the CRC-error bit set,
  \<open>check_for_msg\<close> returns \<open>-1\<close> (which is not the no-packet result 0), writes the
  RX-done mask and then the CRC-error mask to the flags register (the chip clears a flag
  when a 1 is written to it), reads nothing from the FIFO, leaves the caller's buffer
  alone and does not change the stored RSSI and SNR.
\<close>

theorem check_for_msg_crc_error:
  assumes "fst (read_lora_register REG_IRQ_FLAGS w) AND IRQ_RX_DONE_MASK \<noteq> 0"
    and "fst (read_lora_register REG_IRQ_FLAGS w) AND IRQ_PAYLOAD_CRC_ERROR \<noteq> 0"
  shows "fst (check_for_msg buffer maxLength w) = - 1
         \<and> fst (check_for_msg buffer maxLength w) \<noteq> 0
         \<and> fst (snd (check_for_msg buffer maxLength w)) = buffer
         \<and> bus_accesses w (snd (snd (check_for_msg buffer maxLength w)))
             = [RegRead REG_IRQ_FLAGS (fst (read_lora_register REG_IRQ_FLAGS w)),
                RegWrite REG_IRQ_FLAGS IRQ_RX_DONE_MASK,
                RegWrite REG_IRQ_FLAGS IRQ_PAYLOAD_CRC_ERROR]
         \<and> reads_from REG_FIFO (bus_accesses w (snd (snd (check_for_msg buffer maxLength w)))) = []
         \<and> lastRssi (snd (snd (check_for_msg buffer maxLength w))) = lastRssi w
         \<and> lastSnr (snd (snd (check_for_msg buffer maxLength w))) = lastSnr w"
proof -
  from assms have a: "(miso w !! 1) AND IRQ_RX_DONE_MASK \<noteq> 0"
    and b: "(miso w !! 1) AND IRQ_PAYLOAD_CRC_ERROR \<noteq> 0"
    by (simp_all add: read_lora_register_eq)
  show ?thesis
    by (simp add: check_crc_error[OF a b] read_lora_register_eq bus_accesses_def
        timed_accesses_def accesses_frames)
qed

theorem check_for_msg_crc_error_witness:
  "fst (read_lora_register REG_IRQ_FLAGS (boot (sconst 0x60) 7)) AND IRQ_RX_DONE_MASK \<noteq> 0
   \<and> fst (read_lora_register REG_IRQ_FLAGS (boot (sconst 0x60) 7)) AND IRQ_PAYLOAD_CRC_ERROR \<noteq> 0
   \<and> fst (check_for_msg (\<lambda>j. 0xAA) 16 (boot (sconst 0x60) 7)) = - 1
   \<and> bus_accesses (boot (sconst 0x60) 7)
        (snd (snd (check_for_msg (\<lambda>j. 0xAA) 16 (boot (sconst 0x60) 7))))
      = [RegRead REG_IRQ_FLAGS 0x60, RegWrite REG_IRQ_FLAGS 0x40, RegWrite REG_IRQ_FLAGS 0x20]"
proof -
  have h1: "fst (read_lora_register REG_IRQ_FLAGS (boot (sconst 0x60) 7)) AND IRQ_RX_DONE_MASK \<noteq> 0"
    and h2: "fst (read_lora_register REG_IRQ_FLAGS (boot (sconst 0x60) 7)) AND IRQ_PAYLOAD_CRC_ERROR \<noteq> 0"
    by (simp_all add: read_lora_register_eq boot_def)
  from check_for_msg_crc_error[OF h1 h2, of "\<lambda>j. 0xAA" 16] h1 h2 show ?thesis
    by (simp add: read_lora_register_eq boot_def)
qed

subsection \<open>C4: truncation to the caller's capacity\<close>

text \<open>
  Claim C4. On the successful-packet path (RX done set, CRC error clear), with \<open>N\<close> the
  value read from the received-byte-count register and \<open>maxLength\<close> the caller's
  capacity, \<open>check_for_msg\<close> reads exactly \<open>min N maxLength\<close> bytes from the FIFO, returns
  that number, stores the bytes read at the indices below it and leaves every index
  from \<open>min N maxLength\<close> on as it was. With \<open>N = 200\<close> and capacity 50 it reads and
  returns 50.
\<close>

theorem check_for_msg_truncates:
  assumes "fst (read_lora_register REG_IRQ_FLAGS w) AND IRQ_RX_DONE_MASK \<noteq> 0"
    and "fst (read_lora_register REG_IRQ_FLAGS w) AND IRQ_PAYLOAD_CRC_ERROR = 0"
  shows "let (r, buffer', w') = check_for_msg buffer maxLength w;
             acc = bus_accesses w w';
             fifo = reads_from REG_FIFO acc
         in \<exists>N. reads_from REG_RX_NB_BYTES acc = [N]
              \<and> length fifo = min (unat N) (unat maxLength)
              \<and> r = int (min (unat N) (unat maxLength))
              \<and> (\<forall>j. buffer' j = (if j < min (unat N) (unat maxLength) then fifo ! j
                                    else buffer j))"
proof -
  from assms have a: "(miso w !! 1) AND IRQ_RX_DONE_MASK \<noteq> 0"
    and b: "(miso w !! 1) AND IRQ_PAYLOAD_CRC_ERROR = 0"
    by (simp_all add: read_lora_register_eq)
  show ?thesis
    unfolding Let_def split_def check_packet_accesses[OF a b]
    by (simp add: check_packet[OF a b] access_views clamp_min del: upt_Suc)
qed


theorem check_for_msg_truncates_witness:
  "let w = boot ([0x00, 0x40, 0x00, 0x00, 0x00, 200] @- sconst 0x55) 0;
       res = check_for_msg (\<lambda>j. 0x00) 50 w
   in fst (read_lora_register REG_IRQ_FLAGS w) AND IRQ_RX_DONE_MASK \<noteq> 0
      \<and> fst (read_lora_register REG_IRQ_FLAGS w) AND IRQ_PAYLOAD_CRC_ERROR = 0
      \<and> reads_from REG_RX_NB_BYTES (bus_accesses w (snd (snd res))) = [200]
      \<and> length (reads_from REG_FIFO (bus_accesses w (snd (snd res)))) = 50
      \<and> fst res = 50
      \<and> fst (snd res) 49 = 0x55 \<and> fst (snd res) 50 = 0x00"
proof -
  define w where "w = boot ([0x00, 0x40, 0x00, 0x00, 0x00, 200] @- sconst 0x55) 0"
  define res where "res = check_for_msg (\<lambda>j. 0x00) 50 w"
  have m1: "miso w !! 1 = 0x40" and m5: "miso w !! 5 = 200"
    by (simp_all add: w_def boot_def shift_snth del: shift.simps)
  have a: "(miso w !! 1) AND IRQ_RX_DONE_MASK \<noteq> 0"
    and b: "(miso w !! 1) AND IRQ_PAYLOAD_CRC_ERROR = 0"
    unfolding m1 by simp_all
  have h1: "fst (read_lora_register REG_IRQ_FLAGS w) AND IRQ_RX_DONE_MASK \<noteq> 0"
    and h2: "fst (read_lora_register REG_IRQ_FLAGS w) AND IRQ_PAYLOAD_CRC_ERROR = 0"
    using a b by (simp_all add: read_lora_register_eq)
  have nb: "reads_from REG_RX_NB_BYTES (bus_accesses w (snd (snd res))) = [200]"
    unfolding res_def check_packet_accesses[OF a b] by (simp add: access_views m5)
  from check_for_msg_truncates[OF h1 h2, of "\<lambda>j. 0x00" 50]
  obtain N where n: "reads_from REG_RX_NB_BYTES (bus_accesses w (snd (snd res))) = [N]"
    and len: "length (reads_from REG_FIFO (bus_accesses w (snd (snd res))))
                = min (unat N) (unat (50 :: u8))"
    and r: "fst res = int (min (unat N) (unat (50 :: u8)))"
    and buf: "\<forall>j. fst (snd res) j =
        (if j < min (unat N) (unat (50 :: u8))
         then reads_from REG_FIFO (bus_accesses w (snd (snd res))) ! j else 0x00)"
    unfolding Let_def split_def res_def by blast
  from n nb have N: "N = 200" by simp
  have fifo49: "reads_from REG_FIFO (bus_accesses w (snd (snd res))) ! 49 = 0x55"
    unfolding res_def check_packet_accesses[OF a b]
    by (simp add: access_views m5 w_def boot_def shift_snth del: upt_Suc shift.simps)
  from buf have "fst (snd res) 49 = 0x55" "fst (snd res) 50 = 0x00"
    by (simp_all add: N fifo49)
  with h1 h2 nb len r N show ?thesis
    unfolding Let_def w_def[symmetric] res_def[symmetric] by simp
qed

subsection \<open>C7: RSSI and SNR of a received packet\<close>

text \<open>
  Claim C7. On the successful-packet path the stored RSSI is the value read from the
  packet-RSSI register minus 164 when the stored frequency is below 525 and minus 157
  otherwise (so 525 itself uses 157), and the stored SNR is the value read from the
  packet-SNR register, taken as a signed byte, divided by 4 with C's integer division
  (the quotient is truncated towards zero).
\<close>

theorem check_for_msg_signal_metrics:
  assumes "fst (read_lora_register REG_IRQ_FLAGS w) AND IRQ_RX_DONE_MASK \<noteq> 0"
    and "fst (read_lora_register REG_IRQ_FLAGS w) AND IRQ_PAYLOAD_CRC_ERROR = 0"
  shows "let (r, buffer', w') = check_for_msg buffer maxLength w;
             acc = bus_accesses w w'
         in \<exists>rssi snr. reads_from REG_PKT_RSSI_VALUE acc = [rssi]
              \<and> reads_from REG_PKT_SNR_VALUE acc = [snr]
              \<and> lastRssi w' = uint rssi - (if sint (currentFreq w) < 525 then 164 else 157)
              \<and> lastSnr w' = sint snr sdiv 4"
proof -
  from assms have a: "(miso w !! 1) AND IRQ_RX_DONE_MASK \<noteq> 0"
    and b: "(miso w !! 1) AND IRQ_PAYLOAD_CRC_ERROR = 0"
    by (simp_all add: read_lora_register_eq)
  show ?thesis
    unfolding Let_def split_def check_packet_accesses[OF a b]
    by (simp add: check_packet[OF a b] access_views del: upt_Suc)
qed

theorem check_for_msg_signal_metrics_witness:
  "let w = (boot ([0x00, 0x40, 0x00, 0x00, 0x00, 0x00, 0x00, 0x00, 0x00, 0x00, 0x00,
                   0x00, 100, 0x00, 0xFD] @- sconst 0x00) 0)\<lparr>currentFreq := 525\<rparr>;
       w' = snd (snd (check_for_msg (\<lambda>j. 0x00) 50 w))
   in fst (read_lora_register REG_IRQ_FLAGS w) AND IRQ_RX_DONE_MASK \<noteq> 0
      \<and> fst (read_lora_register REG_IRQ_FLAGS w) AND IRQ_PAYLOAD_CRC_ERROR = 0
      \<and> reads_from REG_PKT_RSSI_VALUE (bus_accesses w w') = [100]
      \<and> reads_from REG_PKT_SNR_VALUE (bus_accesses w w') = [0xFD]
      \<and> lastRssi w' = 100 - 157 \<and> lastSnr w' = 0"
proof -
  define w where "w = (boot ([0x00, 0x40, 0x00, 0x00, 0x00, 0x00, 0x00, 0x00, 0x00, 0x00, 0x00,
                   0x00, 100, 0x00, 0xFD] @- sconst 0x00) 0)\<lparr>currentFreq := 525\<rparr>"
  define w' where "w' = snd (snd (check_for_msg (\<lambda>j. 0x00) 50 w))"
  have m1: "miso w !! 1 = 0x40" and m5: "miso w !! 5 = 0"
    by (simp_all add: w_def boot_def shift_snth del: shift.simps)
  have a: "(miso w !! 1) AND IRQ_RX_DONE_MASK \<noteq> 0"
    and b: "(miso w !! 1) AND IRQ_PAYLOAD_CRC_ERROR = 0"
    unfolding m1 by simp_all
  have h1: "fst (read_lora_register REG_IRQ_FLAGS w) AND IRQ_RX_DONE_MASK \<noteq> 0"
    and h2: "fst (read_lora_register REG_IRQ_FLAGS w) AND IRQ_PAYLOAD_CRC_ERROR = 0"
    using a b by (simp_all add: read_lora_register_eq)
  have rd: "reads_from REG_PKT_RSSI_VALUE (bus_accesses w w') = [100]"
    "reads_from REG_PKT_SNR_VALUE (bus_accesses w w') = [0xFD]"
    unfolding w'_def check_packet_accesses[OF a b]
    by (simp_all add: access_views m5) (simp_all add: w_def boot_def shift_snth del: shift.simps)
  have f: "sint (currentFreq w) = 525" by (simp add: w_def)
  from check_for_msg_signal_metrics[OF h1 h2, of "\<lambda>j. 0x00" 50]
  obtain rssi snr where "reads_from REG_PKT_RSSI_VALUE (bus_accesses w w') = [rssi]"
    and "reads_from REG_PKT_SNR_VALUE (bus_accesses w w') = [snr]"
    and "lastRssi w' = uint rssi - (if sint (currentFreq w) < 525 then 164 else 157)"
    and "lastSnr w' = sint snr sdiv 4"
    unfolding Let_def split_def w'_def by blast
  with rd f have "lastRssi w' = 100 - 157" "lastSnr w' = sint (0xFD :: u8) sdiv 4"
    by simp_all
  moreover have "sint (0xFD :: u8) sdiv 4 = 0"
    by (simp add: signed_divide_int_def)
  ultimately show ?thesis
    using h1 h2 rd unfolding Let_def w_def[symmetric] w'_def[symmetric] by simp
qed

subsection \<open>C2: the two outcomes of a transmission\<close>

text \<open>
  Claim C2. For every payload and every behaviour of the chip, \<open>send_a_msg\<close> returns:
  it reads the interrupt flags at 0, 1, 2, ... milliseconds after starting the
  transmission (one read per millisecond), never more than 2002 times; every read but
  the last finds TX done clear; it returns true exactly when the last read finds TX
  done set; and when it returns false the flags were read 2002 times, the last time
  2001 ms after the start (so more than 2000 ms have elapsed), and the last value
  written to the mode register is the transmit mode.
\<close>

theorem send_a_msg_outcome:
  "let (ok, w') = send_a_msg message len w;
       polls = flag_polls (timed_accesses w w')
   in polls \<noteq> [] \<and> map fst polls = [0..<length polls] \<and> length polls \<le> 2002
      \<and> clock w' = clock w + of_nat (length polls - 1)
      \<and> (\<forall>p \<in> set (butlast polls). snd p AND IRQ_TX_DONE_MASK = 0)
      \<and> (ok \<longleftrightarrow> snd (last polls) AND IRQ_TX_DONE_MASK \<noteq> 0)
      \<and> (\<not> ok \<longrightarrow> length polls = 2002 \<and> fst (last polls) = 2001
              \<and> last (writes_to REG_OP_MODE (bus_accesses w w'))
                  = MODE_LONG_RANGE_MODE OR MODE_TX)"
proof (cases rule: send_a_msg_cases[of w len message])
  case (seen k)
  from seen(4) seen(1,2) show ?thesis
    by (rule send_outcome_aux) (simp_all add: seen(3))
next
  case timeout
  have res: "send_a_msg message len w =
       (False, w\<lparr>miso := sdrop (13 + unat len + 2 * 2001) (miso w),
          clock := clock w + of_nat 2001,
          trace := trace w @ send_events message len (miso w) 2001 False\<rparr>)"
    using timeout(2) by simp
  from timeout(1) have last: "(miso w !! (12 + unat len + 2 * 2001)) AND IRQ_TX_DONE_MASK = 0"
    by blast
  from timeout(1) have "\<forall>j<2001. (miso w !! (12 + unat len + 2 * j)) AND IRQ_TX_DONE_MASK = 0"
    by simp
  then show ?thesis
    using last by (intro send_outcome_aux[OF res]) simp_all
qed


theorem send_a_msg_outcome_witness:
  "let w = boot (sconst 0x00) 5;
       (ok, w') = send_a_msg (\<lambda>j. 0x41) 3 w;
       polls = flag_polls (timed_accesses w w')
   in \<not> ok \<and> length polls = 2002 \<and> fst (last polls) = 2001
      \<and> (0, 0x00) \<in> set (butlast polls) \<and> snd (last polls) AND IRQ_TX_DONE_MASK = 0
      \<and> clock w' = 2006
      \<and> last (writes_to REG_OP_MODE (bus_accesses w w')) = MODE_LONG_RANGE_MODE OR MODE_TX"
proof -
  define w where "w = boot (sconst 0x00) 5"
  define res where "res = send_a_msg (\<lambda>j. 0x41) 3 w"
  define polls where "polls = flag_polls (timed_accesses w (snd res))"
  have quiet: "\<forall>j\<le>2001. (miso w !! (12 + unat (3 :: u8) + 2 * j)) AND IRQ_TX_DONE_MASK = 0"
    by (simp add: w_def boot_def)
  have r: "res = (False, w\<lparr>miso := sdrop (13 + unat (3 :: u8) + 2 * 2001) (miso w),
        clock := clock w + 2001,
        trace := trace w @ send_events (\<lambda>j. 0x41) 3 (miso w) 2001 False\<rparr>)"
    unfolding res_def by (rule send_a_msg_timeout[OF quiet])
  then have nok: "\<not> fst res" by simp
  have tr: "new_events w (snd res) = send_events (\<lambda>j. 0x41) 3 (miso w) 2001 False"
    unfolding r by simp
  have pol: "polls = map (\<lambda>j. (j, miso w !! (12 + unat (3 :: u8) + 2 * j))) [0..<Suc 2001]"
    unfolding polls_def timed_accesses_def tr send_events_polls ..
  have "set (butlast polls) = (\<lambda>j. (j, miso w !! (12 + unat (3 :: u8) + 2 * j))) ` {..<2001}"
    unfolding pol by (rule polls_shape)
  moreover have "(0, 0x00) = (\<lambda>j. (j, miso w !! (12 + unat (3 :: u8) + 2 * j))) 0"
    by (simp add: w_def boot_def)
  moreover have "(0 :: nat) \<in> {..<2001}" by simp
  ultimately have first: "(0, 0x00) \<in> set (butlast polls)"
    by (simp only: image_eqI)
  from send_a_msg_outcome[of "\<lambda>j. 0x41" 3 w] nok
  have "length polls = 2002" "fst (last polls) = 2001"
    "snd (last polls) AND IRQ_TX_DONE_MASK = 0"
    "clock (snd res) = clock w + of_nat (length polls - 1)"
    "last (writes_to REG_OP_MODE (bus_accesses w (snd res))) = MODE_LONG_RANGE_MODE OR MODE_TX"
    unfolding Let_def split_def res_def[symmetric] polls_def[symmetric] by blast+
  moreover from this(1,4) have "clock (snd res) = 2006" by (simp add: w_def boot_def)
  ultimately show ?thesis
    using nok first
    unfolding Let_def split_def w_def[symmetric] res_def[symmetric] polls_def[symmetric]
    by blast
qed

subsection \<open>C8: transmitting an empty payload\<close>

text \<open>
  Claim C8. \<open>send_a_msg\<close> with length 0 writes no byte to (and reads none from) the FIFO
  register; its first accesses are still the standby-mode write, the clearing of all
  flags, the FIFO-pointer reset, the payload length 0 and the transmit-mode write; it
  returns true exactly when one of its flag reads finds TX done set, and then ends by
  clearing TX done and returning to standby.
\<close>

theorem send_a_msg_empty:
  "let (ok, w') = send_a_msg message 0 w;
       acc = bus_accesses w w'
   in writes_to REG_FIFO acc = [] \<and> reads_from REG_FIFO acc = []
      \<and> take 5 acc =
           [RegWrite REG_OP_MODE (MODE_LONG_RANGE_MODE OR MODE_STDBY),
            RegWrite REG_IRQ_FLAGS 0xFF, RegWrite REG_FIFO_ADDR_PTR 0x00,
            RegWrite REG_PAYLOAD_LENGTH 0,
            RegWrite REG_OP_MODE (MODE_LONG_RANGE_MODE OR MODE_TX)]
      \<and> (ok \<longleftrightarrow> (\<exists>v \<in> set (reads_from REG_IRQ_FLAGS acc). v AND IRQ_TX_DONE_MASK \<noteq> 0))
      \<and> (ok \<longrightarrow> drop (length acc - 2) acc =
            [RegWrite REG_IRQ_FLAGS IRQ_TX_DONE_MASK,
             RegWrite REG_OP_MODE (MODE_LONG_RANGE_MODE OR MODE_STDBY)])"
proof (cases rule: send_a_msg_cases[of w 0 message])
  case (seen k)
  from seen(4) seen(2) show ?thesis
    by (rule send_empty_aux) (use seen(3) in simp)
next
  case timeout
  have res: "send_a_msg message 0 w =
       (False, w\<lparr>miso := sdrop (13 + unat (0 :: u8) + 2 * 2001) (miso w),
          clock := clock w + of_nat 2001,
          trace := trace w @ send_events message 0 (miso w) 2001 False\<rparr>)"
    using timeout(2) by simp
  from timeout(1) have last: "(miso w !! (12 + unat (0 :: u8) + 2 * 2001)) AND IRQ_TX_DONE_MASK = 0"
    by blast
  from timeout(1) have "\<forall>j<2001. (miso w !! (12 + unat (0 :: u8) + 2 * j)) AND IRQ_TX_DONE_MASK = 0"
    by simp
  then show ?thesis
    using last by (intro send_empty_aux[OF res]) simp_all
qed

theorem send_a_msg_empty_witness:
  "let w = boot (sconst 0x08) 0;
       (ok, w') = send_a_msg (\<lambda>j. 0x00) 0 w
   in ok \<and> (\<exists>v \<in> set (reads_from REG_IRQ_FLAGS (bus_accesses w w')). v AND IRQ_TX_DONE_MASK \<noteq> 0)
      \<and> bus_accesses w w' =
           [RegWrite REG_OP_MODE (MODE_LONG_RANGE_MODE OR MODE_STDBY),
            RegWrite REG_IRQ_FLAGS 0xFF, RegWrite REG_FIFO_ADDR_PTR 0x00,
            RegWrite REG_PAYLOAD_LENGTH 0,
            RegWrite REG_OP_MODE (MODE_LONG_RANGE_MODE OR MODE_TX),
            RegRead REG_IRQ_FLAGS 0x08,
            RegWrite REG_IRQ_FLAGS IRQ_TX_DONE_MASK,
            RegWrite REG_OP_MODE (MODE_LONG_RANGE_MODE OR MODE_STDBY)]"
proof -
  define w where "w = boot (sconst 0x08) 0"
  define res where "res = send_a_msg (\<lambda>j. 0x00) 0 w"
  have p1: "\<forall>j<0. (miso w !! (12 + unat (0 :: u8) + 2 * j)) AND IRQ_TX_DONE_MASK = 0"
    by simp
  have p2: "(miso w !! (12 + unat (0 :: u8) + 2 * 0)) AND IRQ_TX_DONE_MASK \<noteq> 0"
    by (simp add: w_def boot_def)
  have r: "res = (True, w\<lparr>miso := sdrop (17 + unat (0 :: u8) + 2 * 0) (miso w),
        clock := clock w + of_nat 0,
        trace := trace w @ send_events (\<lambda>j. 0x00) 0 (miso w) 0 True\<rparr>)"
    unfolding res_def by (rule send_a_msg_success[OF p1 p2]) simp
  have tr: "new_events w (snd res) = send_events (\<lambda>j. 0x00) 0 (miso w) 0 True"
    unfolding r by simp
  have acc: "bus_accesses w (snd res) =
           [RegWrite REG_OP_MODE (MODE_LONG_RANGE_MODE OR MODE_STDBY),
            RegWrite REG_IRQ_FLAGS 0xFF, RegWrite REG_FIFO_ADDR_PTR 0x00,
            RegWrite REG_PAYLOAD_LENGTH 0,
            RegWrite REG_OP_MODE (MODE_LONG_RANGE_MODE OR MODE_TX),
            RegRead REG_IRQ_FLAGS 0x08,
            RegWrite REG_IRQ_FLAGS IRQ_TX_DONE_MASK,
            RegWrite REG_OP_MODE (MODE_LONG_RANGE_MODE OR MODE_STDBY)]"
    unfolding bus_accesses_def timed_accesses_def tr send_events_bus
    by (simp add: w_def boot_def)
  then have seen: "\<exists>v \<in> set (reads_from REG_IRQ_FLAGS (bus_accesses w (snd res))).
      v AND IRQ_TX_DONE_MASK \<noteq> 0"
    by simp
  from send_a_msg_empty[of "\<lambda>j. 0x00" w] seen have "fst res"
    unfolding Let_def split_def res_def[symmetric] by blast
  with seen acc show ?thesis
    unfolding Let_def split_def w_def[symmetric] res_def[symmetric] by blast
qed

subsection \<open>C9: what is written to the mode register\<close>

text \<open>
  Claim C9. Whatever operation of the driver is called, in whatever state and with
  whatever the chip answers, every value it writes to the operating-mode register has
  the long-range bit 0x80 set and one of the modes sleep, standby, transmit and
  continuous receive in its low seven bits.
\<close>

theorem op_mode_writes_long_range:
  "\<forall>v \<in> set (writes_to REG_OP_MODE (bus_accesses w (step c w))).
     v AND MODE_LONG_RANGE_MODE = MODE_LONG_RANGE_MODE
     \<and> v AND 0x7F \<in> {MODE_SLEEP, MODE_STDBY, MODE_TX, MODE_RX_CONTINUOUS}"
proof
  fix v assume "v \<in> set (writes_to REG_OP_MODE (bus_accesses w (step c w)))"
  with mode_writes_step[of w c] have "v \<in> {0x80, 0x81, 0x83, 0x85}" by blast
  then show "v AND MODE_LONG_RANGE_MODE = MODE_LONG_RANGE_MODE
     \<and> v AND 0x7F \<in> {MODE_SLEEP, MODE_STDBY, MODE_TX, MODE_RX_CONTINUOUS}"
    by auto
qed

theorem op_mode_writes_long_range_witness:
  "writes_to REG_OP_MODE (bus_accesses (boot (sconst 0x00) 0) (step StartListening (boot (sconst 0x00) 0)))
     = [MODE_LONG_RANGE_MODE OR MODE_STDBY, MODE_LONG_RANGE_MODE OR MODE_RX_CONTINUOUS]
   \<and> (MODE_LONG_RANGE_MODE OR MODE_RX_CONTINUOUS) AND MODE_LONG_RANGE_MODE = MODE_LONG_RANGE_MODE
   \<and> (MODE_LONG_RANGE_MODE OR MODE_RX_CONTINUOUS) AND 0x7F
        \<in> {MODE_SLEEP, MODE_STDBY, MODE_TX, MODE_RX_CONTINUOUS}"
proof -
  have e: "writes_to REG_OP_MODE (bus_accesses (boot (sconst 0x00) 0)
        (step StartListening (boot (sconst 0x00) 0)))
     = [MODE_LONG_RANGE_MODE OR MODE_STDBY, MODE_LONG_RANGE_MODE OR MODE_RX_CONTINUOUS]"
    by (simp add: start_listening_def write_lora_register_eq bus_accesses_def
        timed_accesses_def accesses_frames sdrop_snth boot_def)
  then have "MODE_LONG_RANGE_MODE OR MODE_RX_CONTINUOUS
      \<in> set (writes_to REG_OP_MODE (bus_accesses (boot (sconst 0x00) 0)
        (step StartListening (boot (sconst 0x00) 0))))"
    by simp
  with op_mode_writes_long_range[of "boot (sconst 0x00) 0" StartListening] e
  show ?thesis by blast
qed

subsection \<open>C10: the signal accessors before the first packet\<close>

text \<open>
  Claim C10. After program start and any sequence of driver calls none of which took
  the successful-packet path of \<open>check_for_msg\<close>, \<open>get_signal_strength\<close> and
  \<open>get_signal_quality\<close> both return 0, the value the variables are initialised with;
  both return the world they were called in, so they access no register and change
  nothing.
\<close>

theorem signal_accessors_before_first_packet:
  assumes "no_rx_success cs (boot chip t0)"
  shows "get_signal_strength (run cs (boot chip t0)) = (0, run cs (boot chip t0))
         \<and> get_signal_quality (run cs (boot chip t0)) = (0, run cs (boot chip t0))
         \<and> bus_accesses (run cs (boot chip t0))
              (snd (get_signal_strength (run cs (boot chip t0)))) = []
         \<and> bus_accesses (run cs (boot chip t0))
              (snd (get_signal_quality (run cs (boot chip t0)))) = []"
  using run_keeps_signal[OF assms]
  by (simp add: get_signal_strength_def get_signal_quality_def boot_def bus_accesses_def
      timed_accesses_def)

theorem signal_accessors_before_first_packet_witness:
  "let cs = [StartListening, Check (\<lambda>j. 0x00) 16, GoToSleep];
       w = run cs (boot (sconst 0x60) 0)
   in no_rx_success cs (boot (sconst 0x60) 0)
      \<and> get_signal_strength w = (0, w) \<and> get_signal_quality w = (0, w)"
proof -
  define w0 where "w0 = boot (sconst 0x60) 0"
  define w1 where "w1 = step StartListening w0"
  have m: "miso w1 !! 1 = 0x60"
    by (simp add: w1_def w0_def start_listening_def write_lora_register_eq boot_def)
  have "\<not> rx_success (Check (\<lambda>j. 0x00) 16) w1"
    using m by (simp add: read_lora_register_eq)
  then have h: "no_rx_success [StartListening, Check (\<lambda>j. 0x00) 16, GoToSleep] w0"
    by (simp add: w1_def)
  from signal_accessors_before_first_packet[OF h[unfolded w0_def]] h
  show ?thesis unfolding Let_def w0_def by blast
qed

end
